theory Spec2Isabelle
  imports Complex_Main "HOL-Library.Word" "HOL-Library.Multiset"
begin

section \<open>Python and numpy primitives used by \<open>backend/hrv_analysis.py\<close>\<close>

text \<open>
  The analysis module is two Python functions over numpy arrays. Python integers are
  modelled as \<open>int\<close>, the elements of an \<open>int64\<close> array as 64-bit words whose arithmetic
  wraps, the elements of a \<open>float64\<close> array as IEEE doubles whose arithmetic rounds, and a
  raised exception as the left summand of the result.
\<close>

datatype error = IndexError | ValueError string

definition bind_e :: "error + 'a \<Rightarrow> ('a \<Rightarrow> error + 'b) \<Rightarrow> error + 'b" where
  "bind_e m f = (case m of Inl e \<Rightarrow> Inl e | Inr x \<Rightarrow> f x)"

text \<open>
  \<open>xs[i]\<close> on a list or a one-dimensional array: a negative index counts from the end,
  an index outside the sequence raises \<open>IndexError\<close>.
\<close>

definition getitem :: "'a list \<Rightarrow> int \<Rightarrow> error + 'a" where
  "getitem xs i =
     (let n = int (length xs); j = (if i < 0 then i + n else i)
      in if 0 \<le> j \<and> j < n then Inr (xs ! nat j) else Inl IndexError)"

text \<open>\<open>range(a, b)\<close>: the integers from \<open>a\<close> up to but excluding \<open>b\<close>.\<close>

definition py_range :: "int \<Rightarrow> int \<Rightarrow> int list" where
  "py_range a b = [a..b - 1]"

text \<open>
  \<open>xs[start:]\<close>: a negative start counts from the end and is clipped at the first
  element, a start beyond the end is clipped at the end. A slice never raises.
\<close>

definition py_slice_from :: "int \<Rightarrow> 'a list \<Rightarrow> 'a list" where
  "py_slice_from start xs =
     (let n = int (length xs);
          lo = (if start < 0 then max (start + n) 0 else min start n)
      in drop (nat lo) xs)"

text \<open>
  A list comprehension \<open>[f(x) for x in xs]\<close> and one with a condition
  \<open>[x for x in xs if p(x)]\<close>, where evaluating \<open>f\<close> or \<open>p\<close> may raise: elements are
  visited in order and the first exception ends the comprehension.
\<close>

fun traverse :: "('a \<Rightarrow> error + 'b) \<Rightarrow> 'a list \<Rightarrow> error + 'b list" where
  "traverse f [] = Inr []"
| "traverse f (x # xs) =
     bind_e (f x) (\<lambda>y. bind_e (traverse f xs) (\<lambda>ys. Inr (y # ys)))"

fun filter_e :: "('a \<Rightarrow> error + bool) \<Rightarrow> 'a list \<Rightarrow> error + 'a list" where
  "filter_e p [] = Inr []"
| "filter_e p (x # xs) =
     bind_e (p x) (\<lambda>b. bind_e (filter_e p xs) (\<lambda>ys. Inr (if b then x # ys else ys)))"

subsection \<open>Double-precision values\<close>

text \<open>
  A \<open>float64\<close> is a finite double, an infinity or NaN. The two signed zeros are one value
  here: Python's \<open>==\<close> does not tell them apart, and the analysis never divides by a
  floating-point zero. The finite doubles are the reals \<open>m * 2^e\<close> with \<open>|m| \<le> 2^53\<close>,
  \<open>e \<ge> -1074\<close> and magnitude below \<open>2^1024\<close>.
\<close>

datatype float64 = Fin real | PInf | NInf | NaN

definition pow2 :: "int \<Rightarrow> real" where
  "pow2 e = 2 powr real_of_int e"

definition is_double :: "real \<Rightarrow> bool" where
  "is_double y \<longleftrightarrow>
     (\<exists>m e. y = real_of_int m * pow2 e \<and> \<bar>m\<bar> \<le> 2 ^ 53 \<and> - 1074 \<le> e \<and> \<bar>y\<bar> < pow2 1024)"

text \<open>
  Rounding to nearest, ties to even, as every IEEE operation does with its exact result:
  the unit in the last place of \<open>x\<close> is \<open>2^e\<close> with \<open>e\<close> 52 below the binade of \<open>x\<close>
  but not below the subnormal exponent, \<open>x\<close> is rounded to the nearest multiple of it,
  and a result of magnitude \<open>2^1024\<close> or more is an infinity.
\<close>

definition binade :: "real \<Rightarrow> int" where
  "binade x = \<lfloor>log 2 \<bar>x\<bar>\<rfloor>"

definition ulp_exponent :: "real \<Rightarrow> int" where
  "ulp_exponent x = max (binade x - 52) (- 1074)"

definition round_half_even :: "real \<Rightarrow> int" where
  "round_half_even y =
     (let f = \<lfloor>y\<rfloor>; d = y - real_of_int f
      in if d < 1 / 2 then f else if 1 / 2 < d then f + 1
         else if even f then f else f + 1)"

definition rnd64 :: "real \<Rightarrow> float64" where
  "rnd64 x =
     (if x = 0 then Fin 0
      else (let e = ulp_exponent x;
                y = real_of_int (round_half_even (x / pow2 e)) * pow2 e
            in if pow2 1024 \<le> \<bar>y\<bar> then (if 0 < x then PInf else NInf) else Fin y))"

text \<open>
  The operations the analysis reaches: negation, addition and subtraction, the product
  of a value with itself (\<open>np.square\<close>, and \<open>x * x\<close> inside \<open>np.std\<close>), the quotient of a
  sum by an element count (a non-negative integer, exact as a double), the square root,
  and the conversion of an \<open>int64\<close> to a double.
\<close>

fun fneg :: "float64 \<Rightarrow> float64" where
  "fneg (Fin x) = Fin (- x)"
| "fneg PInf = NInf"
| "fneg NInf = PInf"
| "fneg NaN = NaN"

fun fadd :: "float64 \<Rightarrow> float64 \<Rightarrow> float64" where
  "fadd (Fin x) (Fin y) = rnd64 (x + y)"
| "fadd (Fin x) PInf = PInf"
| "fadd (Fin x) NInf = NInf"
| "fadd (Fin x) NaN = NaN"
| "fadd PInf (Fin y) = PInf"
| "fadd PInf PInf = PInf"
| "fadd PInf NInf = NaN"
| "fadd PInf NaN = NaN"
| "fadd NInf (Fin y) = NInf"
| "fadd NInf PInf = NaN"
| "fadd NInf NInf = NInf"
| "fadd NInf NaN = NaN"
| "fadd NaN b = NaN"

definition fsub :: "float64 \<Rightarrow> float64 \<Rightarrow> float64" where
  "fsub a b = fadd a (fneg b)"

fun fsquare :: "float64 \<Rightarrow> float64" where
  "fsquare (Fin x) = rnd64 (x * x)"
| "fsquare PInf = PInf"
| "fsquare NInf = PInf"
| "fsquare NaN = NaN"

fun fdiv_count :: "float64 \<Rightarrow> nat \<Rightarrow> float64" where
  "fdiv_count (Fin x) n =
     (if n \<noteq> 0 then rnd64 (x / real n)
      else if x = 0 then NaN
      else if 0 < x then PInf else NInf)"
| "fdiv_count PInf n = PInf"
| "fdiv_count NInf n = NInf"
| "fdiv_count NaN n = NaN"

fun fsqrt :: "float64 \<Rightarrow> float64" where
  "fsqrt (Fin x) = (if x < 0 then NaN else rnd64 (sqrt x))"
| "fsqrt PInf = PInf"
| "fsqrt NInf = NaN"
| "fsqrt NaN = NaN"

definition of_int64 :: "64 word \<Rightarrow> float64" where
  "of_int64 w = rnd64 (real_of_int (sint w))"

text \<open>Comparison of doubles: every comparison with NaN is false.\<close>

instantiation float64 :: ord
begin

definition less_float64 :: "float64 \<Rightarrow> float64 \<Rightarrow> bool" where
  "less_float64 a b =
     (case a of
        Fin x \<Rightarrow> (case b of Fin y \<Rightarrow> x < y | PInf \<Rightarrow> True | NInf \<Rightarrow> False | NaN \<Rightarrow> False)
      | NInf \<Rightarrow> (case b of Fin y \<Rightarrow> True | PInf \<Rightarrow> True | NInf \<Rightarrow> False | NaN \<Rightarrow> False)
      | PInf \<Rightarrow> False
      | NaN \<Rightarrow> False)"

definition less_eq_float64 :: "float64 \<Rightarrow> float64 \<Rightarrow> bool" where
  "less_eq_float64 a b = (a \<noteq> NaN \<and> (a = b \<or> a < b))"

instance ..

end

subsection \<open>Arrays\<close>

text \<open>
  A column of the data frame, and every array derived from it, is an \<open>int64\<close> or a
  \<open>float64\<close> array (\<open>pd.read_csv\<close> gives the former for integer text, the latter for
  decimal text). The list of beat times is kept with the dtype of the column its
  elements were read from, which is the dtype \<open>np.diff\<close> gives the array it makes of it.
\<close>

datatype ndarray = Int64 "64 word list" | Float64 "float64 list"

fun arr_len :: "ndarray \<Rightarrow> nat" where
  "arr_len (Int64 ws) = length ws"
| "arr_len (Float64 fs) = length fs"

fun arr_slice_from :: "int \<Rightarrow> ndarray \<Rightarrow> ndarray" where
  "arr_slice_from start (Int64 ws) = Int64 (py_slice_from start ws)"
| "arr_slice_from start (Float64 fs) = Float64 (py_slice_from start fs)"

text \<open>\<open>[a[i] for i in idx]\<close>, and \<open>float(a[i])\<close>.\<close>

fun arr_take :: "ndarray \<Rightarrow> int list \<Rightarrow> error + ndarray" where
  "arr_take (Int64 ws) idx = bind_e (traverse (getitem ws) idx) (\<lambda>xs. Inr (Int64 xs))"
| "arr_take (Float64 fs) idx = bind_e (traverse (getitem fs) idx) (\<lambda>xs. Inr (Float64 xs))"

fun item_float :: "ndarray \<Rightarrow> int \<Rightarrow> error + float64" where
  "item_float (Int64 ws) i = bind_e (getitem ws i) (\<lambda>w. Inr (of_int64 w))"
| "item_float (Float64 fs) i = getitem fs i"

text \<open>The elements of an array converted to doubles, as a reduction in \<open>float64\<close> reads them.\<close>

fun as_floats :: "ndarray \<Rightarrow> float64 list" where
  "as_floats (Int64 ws) = map of_int64 ws"
| "as_floats (Float64 fs) = fs"

text \<open>
  \<open>np.diff(a)\<close> is \<open>a[1:] - a[:-1]\<close> and \<open>np.square(a)\<close> is \<open>a * a\<close>, both in the dtype of
  \<open>a\<close>: on an \<open>int64\<close> array they wrap modulo \<open>2^64\<close>, on a \<open>float64\<close> array they round.
\<close>

fun np_diff :: "ndarray \<Rightarrow> ndarray" where
  "np_diff (Int64 ws) = Int64 (map (\<lambda>(hi, lo). hi - lo) (zip (tl ws) (butlast ws)))"
| "np_diff (Float64 fs) = Float64 (map (\<lambda>(hi, lo). fsub hi lo) (zip (tl fs) (butlast fs)))"

fun np_square :: "ndarray \<Rightarrow> ndarray" where
  "np_square (Int64 ws) = Int64 (map (\<lambda>w. w * w) ws)"
| "np_square (Float64 fs) = Float64 (map fsquare fs)"

text \<open>
  numpy adds the elements of a \<open>float64\<close> reduction in an order of its own (pairwise, in
  blocks), so the reduction \<open>add_reduce\<close> is a parameter of the model. What is known of
  it is \<open>sound_reduce\<close>: its result is that of adding the elements two at a time in some
  order and grouping, each addition rounded; the sum of no elements is zero.
\<close>

inductive sums_to :: "float64 list \<Rightarrow> float64 \<Rightarrow> bool" where
  none: "sums_to [] (Fin 0)"
| one: "sums_to [x] x"
| join: "xs \<noteq> [] \<Longrightarrow> ys \<noteq> [] \<Longrightarrow> sums_to xs a \<Longrightarrow> sums_to ys b \<Longrightarrow>
         mset zs = mset xs + mset ys \<Longrightarrow> sums_to zs (fadd a b)"

definition sound_reduce :: "(float64 list \<Rightarrow> float64) \<Rightarrow> bool" where
  "sound_reduce add_reduce \<longleftrightarrow> (\<forall>xs. sums_to xs (add_reduce xs))"

text \<open>
  Adding the elements one after another from the first is one such reduction; the sample
  recordings below are evaluated with it.
\<close>

definition sequential_sum :: "float64 list \<Rightarrow> float64" where
  "sequential_sum xs = (case xs of [] \<Rightarrow> Fin 0 | x # rest \<Rightarrow> foldl fadd x rest)"

text \<open>
  \<open>np.mean(a)\<close>: the elements are converted to doubles and added, and the sum is divided
  by their number.
\<close>

definition np_mean :: "(float64 list \<Rightarrow> float64) \<Rightarrow> ndarray \<Rightarrow> float64" where
  "np_mean add_reduce a = fdiv_count (add_reduce (as_floats a)) (arr_len a)"

text \<open>
  \<open>np.std(a, ddof=1)\<close>: numpy subtracts the mean from every element, multiplies each
  deviation by itself, adds the products, divides by \<open>max(N - ddof, 0)\<close> and takes the
  square root.
\<close>

definition np_std_ddof1 :: "(float64 list \<Rightarrow> float64) \<Rightarrow> ndarray \<Rightarrow> float64" where
  "np_std_ddof1 add_reduce a =
     (let rcount = int (arr_len a);
          arrmean = fdiv_count (add_reduce (as_floats a)) (nat rcount);
          x = map (\<lambda>v. fsquare (fsub v arrmean)) (as_floats a)
      in fsqrt (fdiv_count (add_reduce x) (nat (max (rcount - 1) 0))))"

section \<open>The analysis module\<close>

text \<open>
  The data frame handed to the analysis has the two numeric columns \<open>Time (s)\<close> and
  \<open>Voltage (mV)\<close>.
\<close>

record dataframe =
  time_s :: ndarray
  voltage_mv :: ndarray

record rr_row =
  timestamp :: float64
  rr :: float64

record hrv_metrics =
  MeanRR :: float64
  SDNN :: float64
  RMSSD :: float64

text \<open>
  \<open>detect_peaks\<close>: the comprehension over \<open>range(1, len(voltage_data) - 1)\<close> with the
  chained comparison \<open>voltage_data[i - 1] < voltage_data[i] > voltage_data[i + 1]\<close>.
  The chain reads the middle element once and reads the right neighbour only when the
  first comparison holds.
\<close>

definition is_peak :: "'a::ord list \<Rightarrow> int \<Rightarrow> error + bool" where
  "is_peak voltage_data i =
     bind_e (getitem voltage_data (i - 1)) (\<lambda>a.
     bind_e (getitem voltage_data i) (\<lambda>b.
       if a < b then bind_e (getitem voltage_data (i + 1)) (\<lambda>c. Inr (b > c))
       else Inr False))"

definition detect_peaks :: "'a::ord list \<Rightarrow> error + int list" where
  "detect_peaks voltage_data =
     filter_e (is_peak voltage_data) (py_range 1 (int (length voltage_data) - 1))"

text \<open>
  \<open>detect_peaks\<close> on a column: \<open>int64\<close> readings are compared as the integers they are,
  \<open>float64\<close> readings as doubles.
\<close>

fun detect_peaks_arr :: "ndarray \<Rightarrow> error + int list" where
  "detect_peaks_arr (Int64 ws) = detect_peaks (map sint ws)"
| "detect_peaks_arr (Float64 fs) = detect_peaks fs"

text \<open>
  \<open>analyze_hrv\<close>, in the order of the source: the two slices, the peak indices, the beat
  times \<open>r_peaks_time\<close>, the length check, the RR intervals, the interval table and the
  metrics.
\<close>

definition peak_indices :: "dataframe \<Rightarrow> int \<Rightarrow> error + int list" where
  "peak_indices df start_index =
     detect_peaks_arr (arr_slice_from start_index (voltage_mv df))"

definition r_peaks_time :: "dataframe \<Rightarrow> int \<Rightarrow> error + ndarray" where
  "r_peaks_time df start_index =
     (let times = arr_slice_from start_index (time_s df)
      in bind_e (peak_indices df start_index) (arr_take times))"

definition rr_table_of :: "ndarray \<Rightarrow> ndarray \<Rightarrow> error + rr_row list" where
  "rr_table_of beats rr_intervals =
     traverse
       (\<lambda>i. bind_e (item_float beats i) (\<lambda>t.
            bind_e (item_float rr_intervals i) (\<lambda>d. Inr \<lparr>timestamp = t, rr = d\<rparr>)))
       (py_range 0 (int (arr_len rr_intervals)))"

definition hrv_metrics_of :: "(float64 list \<Rightarrow> float64) \<Rightarrow> ndarray \<Rightarrow> hrv_metrics" where
  "hrv_metrics_of add_reduce rr_intervals =
     \<lparr>MeanRR = np_mean add_reduce rr_intervals,
      SDNN = np_std_ddof1 add_reduce rr_intervals,
      RMSSD = fsqrt (np_mean add_reduce (np_square (np_diff rr_intervals)))\<rparr>"

definition analyze_hrv ::
  "(float64 list \<Rightarrow> float64) \<Rightarrow> dataframe \<Rightarrow> int \<Rightarrow> error + hrv_metrics \<times> rr_row list" where
  "analyze_hrv add_reduce df start_index =
     bind_e (r_peaks_time df start_index) (\<lambda>beats.
       if arr_len beats < 2 then Inl (ValueError ''Not enough R-peaks to compute HRV.'')
       else (let rr_intervals = np_diff beats
             in bind_e (rr_table_of beats rr_intervals) (\<lambda>rr_table.
                  Inr (hrv_metrics_of add_reduce rr_intervals, rr_table))))"

section \<open>Reference notions of the specification\<close>

text \<open>
  The strict local maximum of three consecutive samples: index \<open>i\<close> qualifies iff
  \<open>v[i-1] < v[i]\<close> and \<open>v[i] > v[i+1]\<close>.
\<close>

definition strict_local_max :: "'a::ord list \<Rightarrow> int \<Rightarrow> bool" where
  "strict_local_max v i \<longleftrightarrow> v ! nat (i - 1) < v ! nat i \<and> v ! nat i > v ! nat (i + 1)"

text \<open>The frame with its first \<open>n\<close> samples dropped from both columns.\<close>

fun arr_drop :: "nat \<Rightarrow> ndarray \<Rightarrow> ndarray" where
  "arr_drop n (Int64 ws) = Int64 (drop n ws)"
| "arr_drop n (Float64 fs) = Float64 (drop n fs)"

definition presliced :: "nat \<Rightarrow> dataframe \<Rightarrow> dataframe" where
  "presliced n df =
     \<lparr>time_s = arr_drop n (time_s df), voltage_mv = arr_drop n (voltage_mv df)\<rparr>"

text \<open>The frame of the last \<open>k\<close> samples.\<close>

definition last_samples :: "nat \<Rightarrow> dataframe \<Rightarrow> dataframe" where
  "last_samples k df = presliced (arr_len (time_s df) - k) df"

text \<open>
  The difference of two consecutive beat times as the dtype of the time column takes it,
  converted to a double: the subtraction of doubles, or the subtraction of 64-bit
  integers.
\<close>

fun consecutive_difference :: "ndarray \<Rightarrow> nat \<Rightarrow> float64" where
  "consecutive_difference (Int64 ws) i = of_int64 (ws ! Suc i - ws ! i)"
| "consecutive_difference (Float64 fs) i = fsub (fs ! Suc i) (fs ! i)"

text \<open>
  The statistics as the specification words them, every operation being that of
  double-precision arithmetic: the arithmetic mean is the sum divided by the number of
  values, the sample standard deviation is the square root of the sum of squared
  deviations from the mean divided by \<open>N - 1\<close>, and RMSSD is the square root of the mean
  of the squared successive differences, those differences and squares being taken in
  the dtype of the sequence.
\<close>

definition spec_mean :: "(float64 list \<Rightarrow> float64) \<Rightarrow> float64 list \<Rightarrow> float64" where
  "spec_mean add_reduce xs = fdiv_count (add_reduce xs) (length xs)"

definition spec_sdnn :: "(float64 list \<Rightarrow> float64) \<Rightarrow> float64 list \<Rightarrow> float64" where
  "spec_sdnn add_reduce xs =
     (let mu = spec_mean add_reduce xs
      in fsqrt (fdiv_count (add_reduce (map (\<lambda>x. fsquare (fsub x mu)) xs)) (length xs - 1)))"

definition spec_rmssd :: "(float64 list \<Rightarrow> float64) \<Rightarrow> ndarray \<Rightarrow> float64" where
  "spec_rmssd add_reduce a = fsqrt (spec_mean add_reduce (as_floats (np_square (np_diff a))))"

text \<open>
  The same statistics over the reals, for a sequence of exact numbers: what the formulas
  denote when nothing rounds or wraps.
\<close>

definition real_mean :: "real list \<Rightarrow> real" where
  "real_mean xs = sum_list xs / real (length xs)"

definition real_rmssd :: "real list \<Rightarrow> real" where
  "real_rmssd xs =
     sqrt (real_mean (map (\<lambda>i. (xs ! Suc i - xs ! i)\<^sup>2) [0..<length xs - 1]))"

text \<open>The value of a finite double.\<close>

fun fval :: "float64 \<Rightarrow> real" where
  "fval (Fin x) = x"
| "fval PInf = 0"
| "fval NInf = 0"
| "fval NaN = 0"

section \<open>Sample recordings\<close>

text \<open>
  A steady recording with beats at 0, 1, 2, 3 and 4 seconds; the same recording with its
  first two samples altered; an uneven one with beats at 1, 3 and 6 seconds; one with two
  beats and one with a single beat; two recordings with integer times, strictly
  increasing, on which 64-bit arithmetic wraps: one whose two beats are \<open>2^63\<close> apart,
  and one whose RR intervals differ by \<open>2^32\<close>; one with integer times and the RR
  intervals 10, 30 and 50; and one with the RR intervals 2, 3 and 3, whose mean \<open>8/3\<close> is
  not a double.
\<close>

definition df_steady :: dataframe where
  "df_steady =
     \<lparr>time_s = Float64 [Fin (- 1 / 2), Fin 0, Fin (1 / 2), Fin 1, Fin (3 / 2), Fin 2,
                         Fin (5 / 2), Fin 3, Fin (7 / 2), Fin 4, Fin (9 / 2)],
      voltage_mv = Float64 [Fin 0, Fin 1, Fin 0, Fin 1, Fin 0, Fin 1, Fin 0, Fin 1, Fin 0,
                            Fin 1, Fin 0]\<rparr>"

definition df_steady_alt :: dataframe where
  "df_steady_alt =
     \<lparr>time_s = Float64 [Fin (- 9), Fin (- 8), Fin (1 / 2), Fin 1, Fin (3 / 2), Fin 2,
                         Fin (5 / 2), Fin 3, Fin (7 / 2), Fin 4, Fin (9 / 2)],
      voltage_mv = Float64 [Fin 7, Fin 5, Fin 0, Fin 1, Fin 0, Fin 1, Fin 0, Fin 1, Fin 0,
                            Fin 1, Fin 0]\<rparr>"

definition df_uneven :: dataframe where
  "df_uneven =
     \<lparr>time_s = Float64 [Fin 0, Fin 1, Fin 2, Fin 3, Fin 4, Fin 5, Fin 6, Fin 7],
      voltage_mv = Int64 [0, 2, 1, 3, 1, 1, 4, 0]\<rparr>"

definition df_two :: dataframe where
  "df_two = \<lparr>time_s = Int64 [0, 1, 2, 3, 4], voltage_mv = Int64 [0, 1, 0, 1, 0]\<rparr>"

definition df_one :: dataframe where
  "df_one = \<lparr>time_s = Float64 [Fin 0, Fin 1, Fin 2],
             voltage_mv = Float64 [Fin 0, Fin 1, Fin 0]\<rparr>"

definition df_far_apart :: dataframe where
  "df_far_apart =
     \<lparr>time_s = Int64 [- 4611686018427387905, - 4611686018427387904, 0,
                       4611686018427387904, 4611686018427387905],
      voltage_mv = Int64 [0, 1, 0, 1, 0]\<rparr>"

definition df_long_gap :: dataframe where
  "df_long_gap =
     \<lparr>time_s = Int64 [0, 10, 11, 20, 21, 4294967326, 4294967327],
      voltage_mv = Int64 [0, 1, 0, 1, 0, 1, 0]\<rparr>"

definition df_spread :: dataframe where
  "df_spread =
     \<lparr>time_s = Int64 [0, 10, 15, 20, 30, 50, 70, 100, 110],
      voltage_mv = Int64 [0, 1, 0, 1, 0, 1, 0, 1, 0]\<rparr>"

definition df_thirds :: dataframe where
  "df_thirds =
     \<lparr>time_s = Float64 [Fin 0, Fin 1, Fin 2, Fin 3, Fin 4, Fin 5, Fin 6, Fin 7, Fin 8, Fin 9,
                         Fin 10],
      voltage_mv = Float64 [Fin 0, Fin 1, Fin 0, Fin 1, Fin 0, Fin 0, Fin 1, Fin 0, Fin 0,
                            Fin 1, Fin 0]\<rparr>"

section \<open>Double-precision rounding\<close>

lemma pow2_pos [simp]: "0 < pow2 e"
  by (simp add: pow2_def)

lemma pow2_nonzero [simp]: "pow2 e \<noteq> 0"
  by (simp add: pow2_def)

lemma pow2_abs [simp]: "\<bar>pow2 e\<bar> = pow2 e"
  by (simp add: pow2_def)

lemma pow2_add: "pow2 (a + b) = pow2 a * pow2 b"
  by (simp add: pow2_def powr_add)

lemma pow2_nat: "pow2 (int n) = 2 ^ n"
  by (simp add: pow2_def powr_realpow)

lemma pow2_mono [simp]: "pow2 a \<le> pow2 b \<longleftrightarrow> a \<le> b"
  by (simp add: pow2_def)

lemma pow2_strict_mono [simp]: "pow2 a < pow2 b \<longleftrightarrow> a < b"
  by (simp add: pow2_def)

lemma pow2_diff: "pow2 (a - b) = pow2 a / pow2 b"
  by (simp add: pow2_def powr_diff)

lemma binade_bounds:
  assumes "x \<noteq> 0"
  shows "pow2 (binade x) \<le> \<bar>x\<bar>" and "\<bar>x\<bar> < pow2 (binade x + 1)"
proof -
  have "0 < \<bar>x\<bar>" using assms by simp
  then have "2 powr real_of_int (binade x) \<le> \<bar>x\<bar> \<and> \<bar>x\<bar> < 2 powr real_of_int (binade x + 1)"
    using floor_log_eq_powr_iff [of "\<bar>x\<bar>" 2 "binade x"] by (simp add: binade_def)
  then show "pow2 (binade x) \<le> \<bar>x\<bar>" and "\<bar>x\<bar> < pow2 (binade x + 1)"
    by (simp_all add: pow2_def)
qed

lemma binade_eq:
  assumes "pow2 k \<le> \<bar>x\<bar>" and "\<bar>x\<bar> < pow2 (k + 1)"
  shows "binade x = k"
proof -
  have "0 < \<bar>x\<bar>" using assms(1) pow2_pos [of k] by linarith
  then show ?thesis
    using floor_log_eq_powr_iff [of "\<bar>x\<bar>" 2 k] assms by (simp add: binade_def pow2_def)
qed

lemma round_half_even_int [simp]: "round_half_even (real_of_int n) = n"
  by (simp add: round_half_even_def)

lemma round_half_even_bounds:
  "\<lfloor>y\<rfloor> \<le> round_half_even y" "round_half_even y \<le> \<lfloor>y\<rfloor> + 1"
  by (simp_all add: round_half_even_def Let_def)

lemma is_double_0 [simp]: "is_double 0"
  unfolding is_double_def by (rule exI [of _ 0], rule exI [of _ 0]) simp

text \<open>A double is its own rounding, and every finite rounding is a double.\<close>

lemma rnd64_exact:
  assumes "is_double x"
  shows "rnd64 x = Fin x"
proof (cases "x = 0")
  case True
  then show ?thesis by (simp add: rnd64_def)
next
  case False
  from assms obtain m e0 where x: "x = real_of_int m * pow2 e0"
    and m: "\<bar>m\<bar> \<le> 2 ^ 53" and e0: "- 1074 \<le> e0" and fin: "\<bar>x\<bar> < pow2 1024"
    unfolding is_double_def by blast
  define e where "e = ulp_exponent x"
  have absx: "\<bar>x\<bar> = real_of_int \<bar>m\<bar> * pow2 e0"
    by (simp add: x abs_mult)
  have "\<exists>n. real_of_int m * pow2 e0 = real_of_int n * pow2 e"
  proof (cases "\<bar>m\<bar> = 2 ^ 53")
    case True
    then have "\<bar>x\<bar> = pow2 53 * pow2 e0"
      using pow2_nat [of 53] by (simp add: absx)
    then have ax: "\<bar>x\<bar> = pow2 (53 + e0)"
      by (simp add: pow2_add)
    then have "binade x = 53 + e0"
      by (intro binade_eq) simp_all
    then have e: "e = e0 + 1"
      using e0 by (simp add: e_def ulp_exponent_def)
    have "even \<bar>m\<bar>" unfolding True by simp
    then have "even m" by simp
    then obtain h where h: "m = 2 * h" by (elim evenE)
    have "pow2 (e0 + 1) = 2 * pow2 e0"
      using pow2_nat [of 1] by (simp add: pow2_add)
    then have "real_of_int m * pow2 e0 = real_of_int h * pow2 e"
      by (simp add: e h)
    then show ?thesis ..
  next
    case False
    with m have "\<bar>m\<bar> < 2 ^ 53" by simp
    then have "real_of_int \<bar>m\<bar> < 2 ^ 53"
      by (metis of_int_less_numeral_power_cancel_iff)
    then have "\<bar>x\<bar> < pow2 53 * pow2 e0"
      using pow2_nat [of 53] by (simp add: absx)
    then have "\<bar>x\<bar> < pow2 (53 + e0)"
      by (simp add: pow2_add)
    with binade_bounds(1) [OF \<open>x \<noteq> 0\<close>] have "pow2 (binade x) < pow2 (53 + e0)"
      by linarith
    then have "binade x - 52 \<le> e0" by simp
    with e0 have le: "e \<le> e0"
      by (simp add: e_def ulp_exponent_def)
    define d where "d = nat (e0 - e)"
    have "e0 = e + int d" using le by (simp add: d_def)
    then have "pow2 e0 = pow2 e * 2 ^ d"
      by (metis pow2_add pow2_nat)
    then have "real_of_int m * pow2 e0 = real_of_int (m * 2 ^ d) * pow2 e"
      by simp
    then show ?thesis ..
  qed
  then obtain n where n: "x = real_of_int n * pow2 e"
    unfolding x ..
  then have "x / pow2 e = real_of_int n"
    by simp
  then have "real_of_int (round_half_even (x / pow2 e)) * pow2 e = x"
    using n by simp
  with fin \<open>x \<noteq> 0\<close> show ?thesis
    by (simp add: rnd64_def Let_def e_def)
qed

lemma rnd64_is_double:
  assumes "rnd64 x = Fin y"
  shows "is_double y"
proof (cases "x = 0")
  case True
  with assms show ?thesis by (simp add: rnd64_def)
next
  case False
  let ?e = "ulp_exponent x"
  let ?z = "x / pow2 ?e"
  let ?q = "round_half_even ?z"
  from assms False have y: "y = real_of_int ?q * pow2 ?e" and fin: "\<bar>y\<bar> < pow2 1024"
    by (auto simp: rnd64_def Let_def split: if_splits)
  have e: "- 1074 \<le> ?e" and ek: "binade x + 1 - ?e \<le> 53"
    by (simp_all add: ulp_exponent_def)
  have "\<bar>?z\<bar> = \<bar>x\<bar> / pow2 ?e"
    by simp
  also have "\<dots> < pow2 (binade x + 1) / pow2 ?e"
    using binade_bounds(2) [OF False] by (simp add: divide_strict_right_mono)
  also have "\<dots> = pow2 (binade x + 1 - ?e)"
    by (simp add: pow2_diff)
  also have "\<dots> \<le> pow2 53"
    using ek by simp
  finally have "\<bar>?z\<bar> < 2 ^ 53"
    using pow2_nat [of 53] by simp
  then have "- (2 ^ 53) < ?z" and "?z < 2 ^ 53"
    by linarith+
  then have "- (2 ^ 53) \<le> \<lfloor>?z\<rfloor>" and "\<lfloor>?z\<rfloor> < 2 ^ 53"
    by (simp_all add: le_floor_iff floor_less_iff)
  with round_half_even_bounds [of ?z] have "\<bar>?q\<bar> \<le> 2 ^ 53"
    by linarith
  with y e fin show ?thesis
    unfolding is_double_def by blast
qed

lemma rnd64_idem: "rnd64 x = Fin y \<Longrightarrow> rnd64 y = Fin y"
  by (rule rnd64_exact) (rule rnd64_is_double)

text \<open>A real that is not a double is not its own rounding: \<open>8/3\<close>, for one.\<close>

lemma three_not_dvd_power_two: "\<not> (3 :: int) dvd 2 ^ n"
proof (induction n)
  case 0
  show ?case by simp
next
  case (Suc n)
  have "\<not> 3 dvd 2 * x" if "\<not> 3 dvd x" for x :: int
    using that by presburger
  with Suc show ?case by simp
qed

lemma not_double_third: "\<not> is_double (8 / 3)"
proof
  assume "is_double (8 / 3)"
  then obtain m e where eq: "8 / 3 = real_of_int m * pow2 e"
    unfolding is_double_def by blast
  have "\<exists>k j. (8 :: int) * 2 ^ k = 3 * (m * 2 ^ j)"
  proof (cases "0 \<le> e")
    case True
    then have "pow2 e = 2 ^ nat e"
      using pow2_nat [of "nat e"] by simp
    with eq have "real_of_int (8 * 2 ^ 0) = real_of_int (3 * (m * 2 ^ nat e))"
      by simp
    then have "(8 :: int) * 2 ^ 0 = 3 * (m * 2 ^ nat e)"
      by (simp only: of_int_eq_iff)
    then show ?thesis by blast
  next
    case False
    define n where "n = nat (- e)"
    have "e + int n = 0"
      using False by (simp add: n_def)
    then have "pow2 e * pow2 (int n) = pow2 0"
      by (simp only: pow2_add [symmetric])
    then have "pow2 e * 2 ^ n = 1"
      by (simp add: pow2_nat) (simp add: pow2_def)
    then have "pow2 e = 1 / 2 ^ n"
      by (simp add: field_simps)
    with eq have "real_of_int (8 * 2 ^ n) = real_of_int (3 * (m * 2 ^ 0))"
      by (simp add: field_simps)
    then have "(8 :: int) * 2 ^ n = 3 * (m * 2 ^ 0)"
      by (simp only: of_int_eq_iff)
    then show ?thesis by blast
  qed
  then obtain k j where "(8 :: int) * 2 ^ k = 3 * (m * 2 ^ j)"
    by blast
  moreover have "(2 :: int) ^ (k + 3) = 8 * 2 ^ k"
    by (simp add: power_add)
  ultimately have "(3 :: int) dvd 2 ^ (k + 3)"
    by simp
  then show False
    using three_not_dvd_power_two by blast
qed

lemma rnd64_third: "rnd64 (8 / 3) \<noteq> Fin (8 / 3)"
  using rnd64_is_double [of "8 / 3" "8 / 3"] not_double_third by blast

lemma is_double_scaled:
  assumes "\<bar>m\<bar> \<le> 2 ^ 53" and "d \<le> 970"
  shows "is_double (real_of_int (m * 2 ^ d))"
proof -
  have "real_of_int \<bar>m\<bar> \<le> 2 ^ 53"
    using assms(1) by (metis of_int_le_numeral_power_cancel_iff)
  then have "real_of_int \<bar>m\<bar> * 2 ^ d \<le> 2 ^ 53 * 2 ^ d"
    by (simp add: mult_right_mono)
  also have "\<dots> = pow2 (int (53 + d))"
    by (simp only: pow2_nat power_add)
  also have "\<dots> < pow2 1024"
    using assms(2) by simp
  finally have "\<bar>real_of_int (m * 2 ^ d)\<bar> < pow2 1024"
    by (simp add: abs_mult)
  moreover have "real_of_int (m * 2 ^ d) = real_of_int m * pow2 (int d)"
    by (simp add: pow2_nat)
  ultimately show ?thesis
    using assms(1) unfolding is_double_def by (intro exI [of _ m] exI [of _ "int d"]) simp
qed

lemma is_double_of_int: "\<bar>n\<bar> \<le> 2 ^ 53 \<Longrightarrow> is_double (real_of_int n)"
  using is_double_scaled [of n 0] by simp

lemma rnd64_of_int: "\<bar>n\<bar> \<le> 2 ^ 53 \<Longrightarrow> rnd64 (real_of_int n) = Fin (real_of_int n)"
  by (rule rnd64_exact) (rule is_double_of_int)

lemma rnd64_0 [simp]: "rnd64 0 = Fin 0"
  by (simp add: rnd64_def)

lemma rnd64_1 [simp]: "rnd64 1 = Fin 1"
  using rnd64_of_int [of 1] by simp

lemma rnd64_numeral:
  "(numeral k :: int) \<le> 2 ^ 53 \<Longrightarrow> rnd64 (numeral k) = Fin (numeral k)"
  using rnd64_of_int [of "numeral k"] by simp

lemma rnd64_neg_numeral:
  "(numeral k :: int) \<le> 2 ^ 53 \<Longrightarrow> rnd64 (- numeral k) = Fin (- numeral k)"
  using rnd64_of_int [of "- numeral k"] by simp

text \<open>
  Well-formed values: a finite one is a double. Every result of an operation is
  well-formed, whatever the operands.
\<close>

lemma rnd64_cases:
  obtains y where "rnd64 x = Fin y" and "is_double y" | "rnd64 x = PInf" | "rnd64 x = NInf"
proof (cases "rnd64 x")
  case (Fin y)
  with that(1) rnd64_is_double show ?thesis by blast
next
  case PInf
  with that(2) show ?thesis .
next
  case NInf
  with that(3) show ?thesis .
next
  case NaN
  then show ?thesis
    by (simp add: rnd64_def Let_def split: if_splits)
qed

lemma fdiv_count_one_rnd64: "fdiv_count (rnd64 x) (Suc 0) = rnd64 x"
  by (rule rnd64_cases [of x]) (simp_all add: rnd64_exact)

lemma fsub_self_cases: "fsquare (fsub a a) = Fin 0 \<or> fsquare (fsub a a) = NaN"
  by (cases a) (simp_all add: fsub_def)

lemma fsub_Fin_Fin: "fsub (Fin x) (Fin y) = rnd64 (x - y)"
  by (simp add: fsub_def)

lemma fsub_is_rounded_or_special:
  "(\<exists>z. fsub a b = rnd64 z) \<or> fsub a b = PInf \<or> fsub a b = NInf \<or> fsub a b = NaN"
  by (cases a; cases b) (auto simp: fsub_def)

lemma fdiv_count_one_fsub: "fdiv_count (fsub a b) (Suc 0) = fsub a b"
  using fsub_is_rounded_or_special [of a b]
  by (auto simp: fdiv_count_one_rnd64)

lemma fdiv_count_one_of_int64: "fdiv_count (of_int64 w) (Suc 0) = of_int64 w"
  by (simp add: of_int64_def fdiv_count_one_rnd64)

lemma fdiv_count_zero_cases:
  "a = Fin 0 \<or> a = NaN \<Longrightarrow> fdiv_count a 0 = NaN"
  by auto

section \<open>Basic facts about the primitives\<close>

lemmas run_defs =
  analyze_hrv_def r_peaks_time_def peak_indices_def detect_peaks_def is_peak_def
  rr_table_of_def py_slice_from_def py_range_def getitem_def bind_e_def upto.simps
  less_float64_def

lemma bind_e_Inl [simp]: "bind_e (Inl e) f = Inl e"
  by (simp add: bind_e_def)

lemma bind_e_Inr [simp]: "bind_e (Inr x) f = f x"
  by (simp add: bind_e_def)

lemma getitem_in_range:
  "0 \<le> i \<Longrightarrow> i < int (length xs) \<Longrightarrow> getitem xs i = Inr (xs ! nat i)"
  by (simp add: getitem_def)

lemma getitem_nat: "n < length xs \<Longrightarrow> getitem xs (int n) = Inr (xs ! n)"
  by (simp add: getitem_def)

lemma getitem_map: "bind_e (getitem xs i) (\<lambda>x. Inr (f x)) = getitem (map f xs) i"
  by (simp add: getitem_def Let_def)

lemma filter_e_Inr:
  "(\<And>x. x \<in> set xs \<Longrightarrow> p x = Inr (q x)) \<Longrightarrow> filter_e p xs = Inr (filter q xs)"
  by (induction xs) simp_all

lemma traverse_Inr:
  "(\<And>x. x \<in> set xs \<Longrightarrow> f x = Inr (g x)) \<Longrightarrow> traverse f xs = Inr (map g xs)"
  by (induction xs) simp_all

lemma py_range_0: "py_range 0 (int n) = map int [0..<n]"
proof (induction n)
  case 0
  show ?case by (simp add: py_range_def)
next
  case (Suc n)
  have "[0..int (Suc n) - 1] = [0..int n - 1] @ [int n]"
    using upto_rec2 [of 0 "int n"] by simp
  with Suc show ?case by (simp add: py_range_def)
qed

lemma py_slice_from_nat: "py_slice_from (int n) xs = drop n xs"
  by (cases "n \<le> length xs") (simp_all add: py_slice_from_def min_def)

lemma py_slice_from_0: "py_slice_from 0 xs = xs"
  using py_slice_from_nat [of 0 xs] by simp

lemma py_slice_from_beyond: "int (length xs) \<le> start \<Longrightarrow> py_slice_from start xs = []"
  by (simp add: py_slice_from_def min_def)

lemma nat_shift:
  "start < 0 \<Longrightarrow> - start \<le> int n \<Longrightarrow> nat (start + int n) = n - nat (- start)"
  by arith

lemma py_slice_from_negative_drop:
  assumes "start < 0" and "- start \<le> int (length xs)"
  shows "py_slice_from start xs = drop (length xs - nat (- start)) xs"
  using assms nat_shift [OF assms]
  by (simp add: py_slice_from_def Let_def max_def)

lemma py_slice_from_shifted_drop:
  assumes "start < 0" and "- start \<le> int (length xs)"
  shows "py_slice_from (int (length xs) + start) xs = drop (length xs - nat (- start)) xs"
  using assms nat_shift [OF assms]
  by (simp add: py_slice_from_def Let_def min_def add.commute)

subsection \<open>Arrays\<close>

lemma length_as_floats [simp]: "length (as_floats a) = arr_len a"
  by (cases a) simp_all

lemma arr_slice_from_nat: "arr_slice_from (int n) a = arr_drop n a"
  by (cases a) (simp_all add: py_slice_from_nat)

lemma arr_slice_from_0: "arr_slice_from 0 a = a"
  by (cases a) (simp_all add: py_slice_from_0)

lemma arr_drop_0 [simp]: "arr_drop 0 a = a"
  by (cases a) simp_all

lemma arr_len_drop [simp]: "arr_len (arr_drop n a) = arr_len a - n"
  by (cases a) simp_all

lemma arr_slice_from_beyond:
  "int (arr_len a) \<le> start \<Longrightarrow> arr_len (arr_slice_from start a) = 0"
  by (cases a) (simp_all add: py_slice_from_beyond)

lemma arr_len_slice_from:
  "arr_len a = arr_len b \<Longrightarrow> arr_len (arr_slice_from start a) = arr_len (arr_slice_from start b)"
  by (cases a; cases b) (simp_all add: py_slice_from_def Let_def)

lemma arr_slice_from_negative_drop:
  assumes "start < 0" and "- start \<le> int (arr_len a)"
  shows "arr_slice_from start a = arr_drop (arr_len a - nat (- start)) a"
  using assms by (cases a) (simp_all add: py_slice_from_negative_drop)

lemma arr_slice_from_shifted_drop:
  assumes "start < 0" and "- start \<le> int (arr_len a)"
  shows "arr_slice_from (int (arr_len a) + start) a = arr_drop (arr_len a - nat (- start)) a"
  using assms by (cases a) (simp_all add: py_slice_from_shifted_drop)

lemma item_float_getitem: "item_float a i = getitem (as_floats a) i"
  by (cases a) (simp_all add: getitem_map)

lemma arr_take_in_range:
  assumes "\<And>i. i \<in> set idx \<Longrightarrow> 0 \<le> i \<and> i < int (arr_len a)"
  shows "\<exists>b. arr_take a idx = Inr b \<and> arr_len b = length idx
             \<and> as_floats b = map (\<lambda>i. as_floats a ! nat i) idx"
proof (cases a)
  case (Int64 ws)
  have "traverse (getitem ws) idx = Inr (map (\<lambda>i. ws ! nat i) idx)"
    by (rule traverse_Inr) (use assms Int64 in \<open>simp add: getitem_in_range\<close>)
  moreover have "map of_int64 (map (\<lambda>i. ws ! nat i) idx) = map (\<lambda>i. map of_int64 ws ! nat i) idx"
    using assms Int64 by (auto simp: nat_less_iff)
  ultimately show ?thesis
    using Int64 by simp
next
  case (Float64 fs)
  have "traverse (getitem fs) idx = Inr (map (\<lambda>i. fs ! nat i) idx)"
    by (rule traverse_Inr) (use assms Float64 in \<open>simp add: getitem_in_range\<close>)
  then show ?thesis
    using Float64 by simp
qed

lemma arr_len_np_diff [simp]: "arr_len (np_diff a) = arr_len a - 1"
  by (cases a) simp_all

lemma as_floats_np_diff:
  "i < arr_len a - 1 \<Longrightarrow> as_floats (np_diff a) ! i = consecutive_difference a i"
  by (cases a) (simp_all add: nth_tl nth_butlast)

section \<open>The peak detector\<close>

lemma is_peak_in_range:
  assumes "1 \<le> i" and "i \<le> int (length v) - 2"
  shows "is_peak v i = Inr (strict_local_max v i)"
proof -
  have "getitem v (i - 1) = Inr (v ! nat (i - 1))"
    and "getitem v i = Inr (v ! nat i)"
    and "getitem v (i + 1) = Inr (v ! nat (i + 1))"
    using assms by (simp_all add: getitem_in_range)
  then show ?thesis
    by (simp add: is_peak_def strict_local_max_def)
qed

lemma detect_peaks_filter:
  "detect_peaks v = Inr (filter (strict_local_max v) [1..int (length v) - 2])"
proof -
  have "filter_e (is_peak v) [1..int (length v) - 2]
      = Inr (filter (strict_local_max v) [1..int (length v) - 2])"
    by (rule filter_e_Inr) (simp add: is_peak_in_range)
  then show ?thesis
    by (simp add: detect_peaks_def py_range_def)
qed

lemma detect_peaks_arr_total:
  "\<exists>ps. detect_peaks_arr a = Inr ps \<and> (\<forall>i\<in>set ps. 1 \<le> i \<and> i \<le> int (arr_len a) - 2)"
  by (cases a) (simp_all add: detect_peaks_filter)

text \<open>
  C1. For every sequence of readings of length \<open>N\<close>, \<open>detect_peaks\<close> returns (without
  raising) exactly the indices \<open>i\<close> in \<open>[1, N-2]\<close> with \<open>reading[i-1] < reading[i]\<close> and
  \<open>reading[i] > reading[i+1]\<close>, listed in strictly ascending order. Nothing is assumed
  about the comparison.
\<close>

theorem detect_peaks_strict_local_maxima:
  "\<exists>ps. detect_peaks v = Inr ps
      \<and> set ps = {i. 1 \<le> i \<and> i \<le> int (length v) - 2
                     \<and> v ! nat (i - 1) < v ! nat i \<and> v ! nat i > v ! nat (i + 1)}
      \<and> sorted_wrt (<) ps"
proof -
  let ?ps = "filter (strict_local_max v) [1..int (length v) - 2]"
  have "detect_peaks v = Inr ?ps"
    by (rule detect_peaks_filter)
  moreover have "set ?ps = {i. 1 \<le> i \<and> i \<le> int (length v) - 2
                     \<and> v ! nat (i - 1) < v ! nat i \<and> v ! nat i > v ! nat (i + 1)}"
    by (auto simp: strict_local_max_def)
  moreover have "sorted_wrt (<) ?ps"
    by (rule sorted_wrt_filter) (rule sorted_wrt_upto)
  ultimately show ?thesis by blast
qed

theorem detect_peaks_strict_local_maxima_witness:
  "detect_peaks [1, 3, 2, 5, 4, 5, 1 :: real] = Inr [1, 3, 5]
   \<and> set [1, 3, 5 :: int]
       = {i. 1 \<le> i \<and> i \<le> int (length [1, 3, 2, 5, 4, 5, 1 :: real]) - 2
             \<and> [1, 3, 2, 5, 4, 5, 1 :: real] ! nat (i - 1) < [1, 3, 2, 5, 4, 5, 1] ! nat i
             \<and> [1, 3, 2, 5, 4, 5, 1 :: real] ! nat i > [1, 3, 2, 5, 4, 5, 1] ! nat (i + 1)}
   \<and> sorted_wrt (<) [1, 3, 5 :: int]"
proof -
  have run: "detect_peaks [1, 3, 2, 5, 4, 5, 1 :: real] = Inr [1, 3, 5]"
    by (simp add: run_defs)
  from detect_peaks_strict_local_maxima [of "[1, 3, 2, 5, 4, 5, 1 :: real]"]
  show ?thesis
    unfolding run by simp
qed

text \<open>
  C7. For every voltage sequence of length 0, 1 or 2, \<open>detect_peaks\<close> returns the empty
  sequence and does not raise.
\<close>

theorem detect_peaks_short:
  "length v < 3 \<Longrightarrow> detect_peaks v = Inr []"
  by (simp add: detect_peaks_filter)

theorem detect_peaks_short_witness:
  "length [1, 3 :: real] < 3 \<and> detect_peaks [1, 3 :: real] = Inr []
   \<and> length ([] :: real list) < 3 \<and> detect_peaks ([] :: real list) = Inr []"
  using detect_peaks_short [of "[1, 3 :: real]"] detect_peaks_short [of "[] :: real list"]
  by simp

section \<open>The estimator\<close>

lemma peak_indices_total:
  "\<exists>ps. peak_indices df start_index = Inr ps
      \<and> (\<forall>i\<in>set ps. 1 \<le> i
            \<and> i \<le> int (arr_len (arr_slice_from start_index (voltage_mv df))) - 2)"
  unfolding peak_indices_def by (rule detect_peaks_arr_total)

lemma r_peaks_time_total:
  assumes "arr_len (time_s df) = arr_len (voltage_mv df)"
  shows "\<exists>ps beats. peak_indices df start_index = Inr ps
            \<and> r_peaks_time df start_index = Inr beats
            \<and> arr_len beats = length ps
            \<and> as_floats beats
                = map (\<lambda>i. as_floats (arr_slice_from start_index (time_s df)) ! nat i) ps"
proof -
  let ?ts = "arr_slice_from start_index (time_s df)"
  let ?vs = "arr_slice_from start_index (voltage_mv df)"
  from peak_indices_total obtain ps where ps: "peak_indices df start_index = Inr ps"
    and range: "\<forall>i\<in>set ps. 1 \<le> i \<and> i \<le> int (arr_len ?vs) - 2"
    by blast
  have len: "arr_len ?ts = arr_len ?vs"
    using assms by (rule arr_len_slice_from)
  have "\<exists>b. arr_take ?ts ps = Inr b \<and> arr_len b = length ps
            \<and> as_floats b = map (\<lambda>i. as_floats ?ts ! nat i) ps"
    by (rule arr_take_in_range) (use range len in auto)
  with ps show ?thesis
    by (auto simp: r_peaks_time_def)
qed

lemma rr_table_of_np_diff:
  "rr_table_of beats (np_diff beats)
     = Inr (map (\<lambda>i. \<lparr>timestamp = as_floats beats ! i, rr = as_floats (np_diff beats) ! i\<rparr>)
              [0..<arr_len (np_diff beats)])"
proof -
  let ?n = "arr_len (np_diff beats)"
  let ?f = "\<lambda>i. bind_e (item_float beats i) (\<lambda>t.
              bind_e (item_float (np_diff beats) i) (\<lambda>d. Inr \<lparr>timestamp = t, rr = d\<rparr>))"
  let ?g = "\<lambda>i. \<lparr>timestamp = as_floats beats ! nat i, rr = as_floats (np_diff beats) ! nat i\<rparr>"
  have "traverse ?f (map int [0..<?n]) = Inr (map ?g (map int [0..<?n]))"
  proof (rule traverse_Inr)
    fix x assume "x \<in> set (map int [0..<?n])"
    then obtain k where k: "x = int k" "k < ?n" by auto
    then have "k < arr_len beats" by simp
    with k show "?f x = Inr (?g x)"
      by (simp add: item_float_getitem getitem_nat)
  qed
  then show ?thesis
    by (simp add: rr_table_of_def py_range_0 comp_def)
qed

lemma analyze_hrv_beats:
  assumes "r_peaks_time df start_index = Inr beats" and "2 \<le> arr_len beats"
  shows "analyze_hrv add_reduce df start_index
         = Inr (hrv_metrics_of add_reduce (np_diff beats),
                map (\<lambda>i. \<lparr>timestamp = as_floats beats ! i,
                          rr = as_floats (np_diff beats) ! i\<rparr>)
                  [0..<arr_len (np_diff beats)])"
  using assms by (simp add: analyze_hrv_def rr_table_of_np_diff Let_def)

lemma analyze_hrv_few_beats:
  assumes "r_peaks_time df start_index = Inr beats" and "arr_len beats < 2"
  shows "analyze_hrv add_reduce df start_index
         = Inl (ValueError ''Not enough R-peaks to compute HRV.'')"
  using assms by (simp add: analyze_hrv_def)

lemma analyze_hrv_slices:
  assumes "arr_slice_from s (time_s df) = arr_slice_from s' (time_s df')"
    and "arr_slice_from s (voltage_mv df) = arr_slice_from s' (voltage_mv df')"
  shows "peak_indices df s = peak_indices df' s'"
    and "r_peaks_time df s = r_peaks_time df' s'"
    and "analyze_hrv add_reduce df s = analyze_hrv add_reduce df' s'"
  using assms by (simp_all add: analyze_hrv_def r_peaks_time_def peak_indices_def)

subsection \<open>Sums of doubles\<close>

lemma sums_to_Nil:
  assumes "sums_to [] s"
  shows "s = Fin 0"
  using assms by (cases rule: sums_to.cases) auto

lemma sums_to_single:
  assumes "sums_to [x] s"
  shows "s = x"
  using assms
proof (cases rule: sums_to.cases)
  case (join xs ys a b)
  then have "length [x] = length xs + length ys"
    by (metis size_mset size_union)
  with join show ?thesis
    by (cases xs; cases ys) simp_all
qed simp_all

lemma sound_reduce_Nil: "sound_reduce add_reduce \<Longrightarrow> add_reduce [] = Fin 0"
  by (simp add: sound_reduce_def sums_to_Nil)

lemma sound_reduce_single: "sound_reduce add_reduce \<Longrightarrow> add_reduce [x] = x"
  by (simp add: sound_reduce_def sums_to_single)

lemma sums_to_foldl: "sums_to (x # rest) (foldl fadd x rest)"
proof (induction rest rule: rev_induct)
  case Nil
  show ?case by (simp add: sums_to.one)
next
  case (snoc y ys)
  have "sums_to ((x # ys) @ [y]) (fadd (foldl fadd x ys) y)"
    by (rule sums_to.join [OF _ _ snoc sums_to.one]) simp_all
  then show ?case by simp
qed

lemma sound_sequential_sum: "sound_reduce sequential_sum"
  unfolding sound_reduce_def
proof
  fix xs show "sums_to xs (sequential_sum xs)"
    by (cases xs) (simp_all add: sequential_sum_def sums_to.none sums_to_foldl)
qed

text \<open>
  Integer-valued doubles whose magnitudes add up to at most \<open>2^53\<close> are added exactly,
  in whatever order.
\<close>

lemma sums_to_exact_ints:
  assumes "sums_to xs s"
    and "\<forall>x\<in>set xs. \<exists>n::int. x = Fin (real_of_int n)"
    and "(\<Sum>x\<leftarrow>xs. \<bar>fval x\<bar>) \<le> 2 ^ 53"
  shows "s = Fin (\<Sum>x\<leftarrow>xs. fval x) \<and> (\<exists>k::int. (\<Sum>x\<leftarrow>xs. fval x) = real_of_int k)"
  using assms
proof (induction rule: sums_to.induct)
  case none
  show ?case by simp
next
  case (one x)
  then obtain n :: int where "x = Fin (real_of_int n)" by auto
  then show ?case by auto
next
  case (join xs ys a b zs)
  let ?A = "\<Sum>x\<leftarrow>xs. fval x" and ?B = "\<Sum>x\<leftarrow>ys. fval x"
  have set_zs: "set zs = set xs \<union> set ys"
    using join.hyps(5) by (metis set_mset_mset set_mset_union)
  have sum_zs: "(\<Sum>x\<leftarrow>zs. fval x) = ?A + ?B"
    using join.hyps(5)
    by (metis (no_types) mset_map image_mset_union sum_mset_sum_list sum_mset.union)
  have abs_zs: "(\<Sum>x\<leftarrow>zs. \<bar>fval x\<bar>) = (\<Sum>x\<leftarrow>xs. \<bar>fval x\<bar>) + (\<Sum>x\<leftarrow>ys. \<bar>fval x\<bar>)"
    using join.hyps(5)
    by (metis (no_types) mset_map image_mset_union sum_mset_sum_list sum_mset.union)
  have nonneg: "0 \<le> (\<Sum>x\<leftarrow>us. \<bar>fval x\<bar>)" for us
    by (rule sum_list_nonneg) auto
  have "(\<Sum>x\<leftarrow>xs. \<bar>fval x\<bar>) \<le> 2 ^ 53" "(\<Sum>x\<leftarrow>ys. \<bar>fval x\<bar>) \<le> 2 ^ 53"
    using join.prems(2) abs_zs nonneg [of xs] nonneg [of ys] by linarith+
  with join.IH join.prems(1) set_zs
  obtain ka kb :: int where a: "a = Fin ?A" "?A = real_of_int ka"
    and b: "b = Fin ?B" "?B = real_of_int kb"
    by auto
  have "\<bar>?A + ?B\<bar> \<le> (\<Sum>x\<leftarrow>zs. \<bar>fval x\<bar>)"
    unfolding sum_zs [symmetric] using sum_list_abs [of "map fval zs"] by (simp add: comp_def)
  with join.prems(2) have "\<bar>real_of_int (ka + kb)\<bar> \<le> 2 ^ 53"
    using a(2) b(2) by simp
  then have "\<bar>ka + kb\<bar> \<le> 2 ^ 53"
    by (metis of_int_abs of_int_le_numeral_power_cancel_iff)
  then have "rnd64 (real_of_int (ka + kb)) = Fin (real_of_int (ka + kb))"
    by (rule rnd64_of_int)
  then have "fadd a b = Fin (?A + ?B)"
    using a b by simp
  then show ?case
    using a(2) b(2) sum_zs by (auto intro: exI [of _ "ka + kb"])
qed

subsection \<open>The sample recordings\<close>

lemma rnd64_two_to_62: "rnd64 4611686018427387904 = Fin 4611686018427387904"
  using rnd64_exact [OF is_double_scaled [of 1 62]] by simp

lemma rnd64_minus_two_to_62: "rnd64 (- 4611686018427387904) = Fin (- 4611686018427387904)"
  using rnd64_exact [OF is_double_scaled [of "- 1" 62]] by simp

lemma rnd64_minus_two_to_63: "rnd64 (- 9223372036854775808) = Fin (- 9223372036854775808)"
  using rnd64_exact [OF is_double_scaled [of "- 1" 63]] by simp

lemmas float_evals =
  of_int64_def fsub_def rnd64_numeral rnd64_neg_numeral rnd64_two_to_62
  rnd64_minus_two_to_62 rnd64_minus_two_to_63

lemma r_peaks_time_steady:
  "r_peaks_time df_steady 0 = Inr (Float64 [Fin 0, Fin 1, Fin 2, Fin 3, Fin 4])"
  by (simp add: df_steady_def run_defs)

lemma r_peaks_time_steady_2:
  "r_peaks_time df_steady 2 = Inr (Float64 [Fin 1, Fin 2, Fin 3, Fin 4])"
  by (simp add: df_steady_def run_defs)

lemma r_peaks_time_steady_tail:
  "r_peaks_time df_steady (- 5) = Inr (Float64 [Fin 3, Fin 4])"
  by (simp add: df_steady_def run_defs)

lemma r_peaks_time_uneven: "r_peaks_time df_uneven 0 = Inr (Float64 [Fin 1, Fin 3, Fin 6])"
  by (simp add: df_uneven_def run_defs)

lemma r_peaks_time_two: "r_peaks_time df_two 0 = Inr (Int64 [1, 3])"
  by (simp add: df_two_def run_defs)

lemma r_peaks_time_one: "r_peaks_time df_one 0 = Inr (Float64 [Fin 1])"
  by (simp add: df_one_def run_defs)

lemma r_peaks_time_far_apart:
  "r_peaks_time df_far_apart 0 = Inr (Int64 [- 4611686018427387904, 4611686018427387904])"
  by (simp add: df_far_apart_def run_defs)

lemma r_peaks_time_long_gap:
  "r_peaks_time df_long_gap 0 = Inr (Int64 [10, 20, 4294967326])"
  by (simp add: df_long_gap_def run_defs)

lemma r_peaks_time_spread: "r_peaks_time df_spread 0 = Inr (Int64 [10, 20, 50, 100])"
  by (simp add: df_spread_def run_defs)

lemma r_peaks_time_thirds:
  "r_peaks_time df_thirds 0 = Inr (Float64 [Fin 1, Fin 3, Fin 6, Fin 9])"
  by (simp add: df_thirds_def run_defs)

lemma table_uneven:
  "map (\<lambda>i. \<lparr>timestamp = as_floats (Float64 [Fin 1, Fin 3, Fin 6]) ! i,
              rr = as_floats (np_diff (Float64 [Fin 1, Fin 3, Fin 6])) ! i\<rparr>)
     [0..<arr_len (np_diff (Float64 [Fin 1, Fin 3, Fin 6]))]
   = [\<lparr>timestamp = Fin 1, rr = Fin 2\<rparr>, \<lparr>timestamp = Fin 3, rr = Fin 3\<rparr>]"
  by (simp add: float_evals upt_rec)

lemma table_two:
  "map (\<lambda>i. \<lparr>timestamp = as_floats (Int64 [1, 3]) ! i,
              rr = as_floats (np_diff (Int64 [1, 3])) ! i\<rparr>)
     [0..<arr_len (np_diff (Int64 [1, 3]))]
   = [\<lparr>timestamp = Fin 1, rr = Fin 2\<rparr>]"
  by (simp add: float_evals)

lemma table_far_apart:
  "map (\<lambda>i. \<lparr>timestamp = as_floats (Int64 [- 4611686018427387904, 4611686018427387904]) ! i,
              rr = as_floats (np_diff (Int64 [- 4611686018427387904, 4611686018427387904])) ! i\<rparr>)
     [0..<arr_len (np_diff (Int64 [- 4611686018427387904, 4611686018427387904]))]
   = [\<lparr>timestamp = Fin (- 4611686018427387904), rr = Fin (- 9223372036854775808)\<rparr>]"
  by (simp add: float_evals)

subsection \<open>The metrics\<close>

lemma arr_len_np_square [simp]: "arr_len (np_square a) = arr_len a"
  by (cases a) simp_all

lemma as_floats_empty: "arr_len a = 0 \<Longrightarrow> as_floats a = []"
  by (cases a) simp_all

lemma as_floats_single: "arr_len a = Suc 0 \<Longrightarrow> as_floats a = [as_floats a ! 0]"
  by (cases "as_floats a") (simp_all flip: length_as_floats)

lemma sint_diff_in_range:
  assumes "\<bar>sint a - sint b\<bar> \<le> 2 ^ 53"
  shows "sint (a - b :: 64 word) = sint a - sint b"
proof -
  have "- (2 ^ 63) \<le> sint a - sint b" and "sint a - sint b < 2 ^ 63"
    using assms by simp_all
  then show ?thesis
    by (simp add: sint_word_ariths signed_take_bit_int_eq_self)
qed

lemma of_int64_diff_exact:
  assumes "\<bar>sint a - sint b\<bar> \<le> 2 ^ 53"
  shows "of_int64 (a - b) = Fin (real_of_int (sint a - sint b))"
  using assms rnd64_of_int [OF assms] by (simp add: of_int64_def sint_diff_in_range)

lemma single_mean:
  assumes "arr_len beats = 2" and "sound_reduce add_reduce"
  shows "fdiv_count (add_reduce (as_floats (np_diff beats))) (Suc 0)
         = consecutive_difference beats 0"
    and "as_floats (np_diff beats) = [consecutive_difference beats 0]"
proof -
  have one: "arr_len (np_diff beats) = Suc 0"
    using assms(1) by simp
  have "as_floats (np_diff beats) ! 0 = consecutive_difference beats 0"
    using assms(1) by (simp add: as_floats_np_diff)
  with as_floats_single [OF one]
  show elems: "as_floats (np_diff beats) = [consecutive_difference beats 0]"
    by simp
  show "fdiv_count (add_reduce (as_floats (np_diff beats))) (Suc 0)
         = consecutive_difference beats 0"
    unfolding elems sound_reduce_single [OF assms(2)]
    by (cases beats) (simp_all add: fdiv_count_one_of_int64 fdiv_count_one_fsub)
qed

lemma hrv_metrics_of_pair:
  assumes "arr_len beats = 2" and "sound_reduce add_reduce"
  shows "hrv_metrics_of add_reduce (np_diff beats)
         = \<lparr>MeanRR = consecutive_difference beats 0, SDNN = NaN, RMSSD = NaN\<rparr>"
proof -
  let ?r = "consecutive_difference beats 0"
  note single = sound_reduce_single [OF assms(2)] and none = sound_reduce_Nil [OF assms(2)]
  have one: "arr_len (np_diff beats) = Suc 0"
    using assms(1) by simp
  have mean: "np_mean add_reduce (np_diff beats) = ?r"
    using single_mean(1) [OF assms] by (simp add: np_mean_def assms(1))
  have "fdiv_count (fsquare (fsub ?r ?r)) 0 = NaN"
    using fsub_self_cases [of ?r] by auto
  then have std: "np_std_ddof1 add_reduce (np_diff beats) = NaN"
    using single_mean [OF assms] by (simp add: np_std_ddof1_def assms(1) single)
  have "as_floats (np_square (np_diff (np_diff beats))) = []"
    by (rule as_floats_empty) (simp add: assms(1))
  then have rmssd: "fsqrt (np_mean add_reduce (np_square (np_diff (np_diff beats)))) = NaN"
    by (simp add: np_mean_def none assms(1))
  show ?thesis
    by (simp add: hrv_metrics_of_def mean std rmssd)
qed

lemma analyze_hrv_pair:
  assumes "r_peaks_time df start_index = Inr beats" and "arr_len beats = 2"
    and "sound_reduce add_reduce"
  shows "analyze_hrv add_reduce df start_index
         = Inr (\<lparr>MeanRR = consecutive_difference beats 0, SDNN = NaN, RMSSD = NaN\<rparr>,
                [\<lparr>timestamp = as_floats beats ! 0, rr = consecutive_difference beats 0\<rparr>])"
proof -
  have "2 \<le> arr_len beats" using assms(2) by simp
  from analyze_hrv_beats [OF assms(1) this, of add_reduce]
  show ?thesis
    using assms(2) single_mean(2) [OF assms(2,3)]
    by (simp add: hrv_metrics_of_pair [OF assms(2,3)])
qed

lemma hrv_metrics_of_spec:
  "hrv_metrics_of add_reduce rr_intervals
     = \<lparr>MeanRR = spec_mean add_reduce (as_floats rr_intervals),
        SDNN = spec_sdnn add_reduce (as_floats rr_intervals),
        RMSSD = spec_rmssd add_reduce rr_intervals\<rparr>"
proof -
  have "nat (max (int (arr_len rr_intervals) - 1) 0) = arr_len rr_intervals - 1"
    by simp
  then show ?thesis
    by (simp add: hrv_metrics_of_def np_mean_def np_std_ddof1_def spec_mean_def
        spec_sdnn_def spec_rmssd_def Let_def)
qed

lemma sound_reduce_exact_ints:
  assumes "sound_reduce add_reduce" and "(\<Sum>n\<leftarrow>ns. \<bar>n\<bar>) \<le> 2 ^ 53"
  shows "add_reduce (map (\<lambda>n. Fin (real_of_int n)) ns) = Fin (real_of_int (sum_list ns))"
proof -
  let ?xs = "map (\<lambda>n. Fin (real_of_int n)) ns"
  have abs: "(\<Sum>x\<leftarrow>?xs. \<bar>fval x\<bar>) = real_of_int (\<Sum>n\<leftarrow>ns. \<bar>n\<bar>)"
    by (induction ns) simp_all
  have val: "(\<Sum>x\<leftarrow>?xs. fval x) = real_of_int (sum_list ns)"
    by (induction ns) simp_all
  have "real_of_int (\<Sum>n\<leftarrow>ns. \<bar>n\<bar>) \<le> 2 ^ 53"
    using assms(2) by (metis of_int_le_numeral_power_cancel_iff)
  with abs have "(\<Sum>x\<leftarrow>?xs. \<bar>fval x\<bar>) \<le> 2 ^ 53"
    by simp
  moreover have "sums_to ?xs (add_reduce ?xs)"
    using assms(1) by (simp add: sound_reduce_def)
  moreover have "\<forall>x\<in>set ?xs. \<exists>n::int. x = Fin (real_of_int n)"
    by auto
  ultimately show ?thesis
    using sums_to_exact_ints [of ?xs "add_reduce ?xs"] val by simp
qed

lemma hrv_metrics_of_steady:
  assumes "sound_reduce add_reduce"
    and "beats = Float64 [Fin 0, Fin 1, Fin 2, Fin 3, Fin 4] \<or> beats = Int64 [0, 1, 2, 3, 4]"
  shows "hrv_metrics_of add_reduce (np_diff beats)
         = \<lparr>MeanRR = Fin 1, SDNN = Fin 0, RMSSD = Fin 0\<rparr>"
proof -
  have ones: "add_reduce [Fin 1, Fin 1, Fin 1, Fin 1] = Fin 4"
    using sound_reduce_exact_ints [OF assms(1), of "[1, 1, 1, 1]"] by simp
  have zeros4: "add_reduce [Fin 0, Fin 0, Fin 0, Fin 0] = Fin 0"
    using sound_reduce_exact_ints [OF assms(1), of "[0, 0, 0, 0]"] by simp
  have zeros3: "add_reduce [Fin 0, Fin 0, Fin 0] = Fin 0"
    using sound_reduce_exact_ints [OF assms(1), of "[0, 0, 0]"] by simp
  from assms(2) have rr: "as_floats (np_diff beats) = [Fin 1, Fin 1, Fin 1, Fin 1]"
    and sq: "as_floats (np_square (np_diff (np_diff beats))) = [Fin 0, Fin 0, Fin 0]"
    by (auto simp: float_evals)
  have len: "arr_len beats = 5"
    using assms(2) by auto
  show ?thesis
    by (simp add: hrv_metrics_of_def np_mean_def np_std_ddof1_def Let_def rr sq len
        ones zeros4 zeros3 fsub_def)
qed

lemma metrics_spread:
  "hrv_metrics_of sequential_sum (np_diff (Int64 [10, 20, 50, 100]))
     = \<lparr>MeanRR = Fin 30, SDNN = Fin 20, RMSSD = Fin 20\<rparr>"
proof -
  have root: "sqrt 400 = 20"
    by (rule real_sqrt_unique) simp_all
  show ?thesis
    by (simp add: hrv_metrics_of_def np_mean_def np_std_ddof1_def Let_def sequential_sum_def
        float_evals root)
qed

lemma mean_thirds:
  "MeanRR (hrv_metrics_of sequential_sum (np_diff (Float64 [Fin 1, Fin 3, Fin 6, Fin 9])))
     = rnd64 (8 / 3)"
  by (simp add: hrv_metrics_of_def np_mean_def sequential_sum_def float_evals)

text \<open>
  C2, as amended. Whenever the analysis finds at least two beat times, with RR the
  differences \<open>np.diff\<close> takes of them in the dtype of the time column, \<open>analyze_hrv\<close>
  returns MeanRR, SDNN and RMSSD as the mean of RR, the standard deviation of RR with
  divisor \<open>N - 1\<close> and the square root of the mean of the squared first differences of RR,
  every sum, difference, product, quotient and root being that of double-precision
  arithmetic (rounded, a zero divisor giving NaN or an infinity) and the first
  differences of an \<open>int64\<close> RR sequence and their squares being taken in \<open>int64\<close>,
  wrapping modulo \<open>2^64\<close>. When the RR values are integers whose magnitudes add up to at
  most \<open>2^53\<close>, MeanRR is their arithmetic mean rounded to the nearest double; and for the
  beat times 0, 1, 2, 3, 4 the three metrics are 1, 0 and 0.
\<close>

theorem analyze_hrv_metrics:
  assumes "r_peaks_time df start_index = Inr beats" and "2 \<le> arr_len beats"
    and "sound_reduce add_reduce"
  shows "\<exists>tbl. analyze_hrv add_reduce df start_index
            = Inr (\<lparr>MeanRR = spec_mean add_reduce (as_floats (np_diff beats)),
                    SDNN = spec_sdnn add_reduce (as_floats (np_diff beats)),
                    RMSSD = spec_rmssd add_reduce (np_diff beats)\<rparr>, tbl)
          \<and> (\<forall>ns. as_floats (np_diff beats) = map (\<lambda>n. Fin (real_of_int n)) ns
                  \<and> (\<Sum>n\<leftarrow>ns. \<bar>n\<bar>) \<le> 2 ^ 53
               \<longrightarrow> spec_mean add_reduce (as_floats (np_diff beats))
                     = rnd64 (real_mean (map real_of_int ns)))
          \<and> (beats = Float64 [Fin 0, Fin 1, Fin 2, Fin 3, Fin 4]
                \<or> beats = Int64 [0, 1, 2, 3, 4]
               \<longrightarrow> analyze_hrv add_reduce df start_index
                     = Inr (\<lparr>MeanRR = Fin 1, SDNN = Fin 0, RMSSD = Fin 0\<rparr>, tbl))"
proof -
  let ?tbl = "map (\<lambda>i. \<lparr>timestamp = as_floats beats ! i, rr = as_floats (np_diff beats) ! i\<rparr>)
                [0..<arr_len (np_diff beats)]"
  have run: "analyze_hrv add_reduce df start_index
             = Inr (hrv_metrics_of add_reduce (np_diff beats), ?tbl)"
    using assms(1,2) by (rule analyze_hrv_beats)
  have mean: "spec_mean add_reduce (as_floats (np_diff beats))
              = rnd64 (real_mean (map real_of_int ns))"
    if "as_floats (np_diff beats) = map (\<lambda>n. Fin (real_of_int n)) ns"
      and "(\<Sum>n\<leftarrow>ns. \<bar>n\<bar>) \<le> 2 ^ 53" for ns
  proof -
    have "length ns = arr_len beats - 1"
      using that(1) by (metis length_as_floats length_map arr_len_np_diff)
    with assms(2) have "length ns \<noteq> 0" by simp
    moreover have "real_of_int (sum_list ns) = sum_list (map real_of_int ns)"
      by (induction ns) simp_all
    ultimately show ?thesis
      using sound_reduce_exact_ints [OF assms(3) that(2)]
      by (simp add: spec_mean_def that(1) real_mean_def)
  qed
  show ?thesis
    using run mean hrv_metrics_of_steady [OF assms(3), of beats]
    by (auto simp: hrv_metrics_of_spec)
qed

theorem analyze_hrv_metrics_witness:
  "r_peaks_time df_steady 0 = Inr (Float64 [Fin 0, Fin 1, Fin 2, Fin 3, Fin 4])
   \<and> 2 \<le> arr_len (Float64 [Fin 0, Fin 1, Fin 2, Fin 3, Fin 4])
   \<and> sound_reduce sequential_sum
   \<and> (\<exists>tbl. analyze_hrv sequential_sum df_steady 0
         = Inr (\<lparr>MeanRR = Fin 1, SDNN = Fin 0, RMSSD = Fin 0\<rparr>, tbl))
   \<and> r_peaks_time df_spread 0 = Inr (Int64 [10, 20, 50, 100])
   \<and> as_floats (np_diff (Int64 [10, 20, 50, 100])) = [Fin 10, Fin 30, Fin 50]
   \<and> (\<exists>tbl. analyze_hrv sequential_sum df_spread 0
         = Inr (\<lparr>MeanRR = Fin 30, SDNN = Fin 20, RMSSD = Fin 20\<rparr>, tbl))"
proof -
  have steady: "\<exists>tbl. analyze_hrv sequential_sum df_steady 0
                  = Inr (\<lparr>MeanRR = Fin 1, SDNN = Fin 0, RMSSD = Fin 0\<rparr>, tbl)"
    using analyze_hrv_metrics [OF r_peaks_time_steady _ sound_sequential_sum]
    by auto
  have rr: "as_floats (np_diff (Int64 [10, 20, 50, 100])) = [Fin 10, Fin 30, Fin 50]"
    by (simp add: float_evals)
  have spread: "\<exists>tbl. analyze_hrv sequential_sum df_spread 0
                  = Inr (\<lparr>MeanRR = Fin 30, SDNN = Fin 20, RMSSD = Fin 20\<rparr>, tbl)"
  proof -
    have two: "2 \<le> arr_len (Int64 [10, 20, 50, 100])"
      by simp
    note computed = trans [OF hrv_metrics_of_spec [symmetric] metrics_spread]
    from analyze_hrv_metrics [OF r_peaks_time_spread two sound_sequential_sum]
    show ?thesis
      unfolding computed by blast
  qed
  show ?thesis
    using steady rr spread r_peaks_time_steady r_peaks_time_spread sound_sequential_sum
    by simp
qed

theorem analyze_hrv_metrics_counterexample:
  "r_peaks_time df_long_gap 0 = Inr (Int64 [10, 20, 4294967326])
   \<and> as_floats (np_diff (Int64 [10, 20, 4294967326])) = [Fin 10, Fin 4294967306]
   \<and> real_rmssd [10, 4294967306] = 4294967296
   \<and> map_sum id (RMSSD \<circ> fst) (analyze_hrv sequential_sum df_long_gap 0) = Inr (Fin 0)
   \<and> map_sum id (RMSSD \<circ> fst) (analyze_hrv sequential_sum df_long_gap 0)
       \<noteq> Inr (Fin (real_rmssd [10, 4294967306]))
   \<and> r_peaks_time df_thirds 0 = Inr (Float64 [Fin 1, Fin 3, Fin 6, Fin 9])
   \<and> as_floats (np_diff (Float64 [Fin 1, Fin 3, Fin 6, Fin 9])) = [Fin 2, Fin 3, Fin 3]
   \<and> real_mean [2, 3, 3] = 8 / 3
   \<and> map_sum id (MeanRR \<circ> fst) (analyze_hrv sequential_sum df_thirds 0)
       = Inr (rnd64 (8 / 3))
   \<and> map_sum id (MeanRR \<circ> fst) (analyze_hrv sequential_sum df_thirds 0)
       \<noteq> Inr (Fin (real_mean [2, 3, 3]))"
proof -
  let ?beats = "Int64 [10, 20, 4294967326]"
  have rr: "as_floats (np_diff ?beats) = [Fin 10, Fin 4294967306]"
    by (simp add: float_evals)
  have "sqrt 18446744073709551616 = 4294967296"
    by (rule real_sqrt_unique) simp_all
  then have natural: "real_rmssd [10, 4294967306] = 4294967296"
    by (simp add: real_rmssd_def real_mean_def)
  have "as_floats (np_square (np_diff (np_diff ?beats))) = [Fin 0]"
    by (simp add: float_evals)
  then have "RMSSD (hrv_metrics_of sequential_sum (np_diff ?beats)) = Fin 0"
    by (simp add: hrv_metrics_of_def np_mean_def sequential_sum_def)
  then have code: "map_sum id (RMSSD \<circ> fst) (analyze_hrv sequential_sum df_long_gap 0)
                   = Inr (Fin 0)"
    using analyze_hrv_beats [OF r_peaks_time_long_gap, of sequential_sum] by simp
  have rr3: "as_floats (np_diff (Float64 [Fin 1, Fin 3, Fin 6, Fin 9])) = [Fin 2, Fin 3, Fin 3]"
    by (simp add: float_evals)
  have mean3: "real_mean [2, 3, 3] = 8 / 3"
    by (simp add: real_mean_def)
  have code3: "map_sum id (MeanRR \<circ> fst) (analyze_hrv sequential_sum df_thirds 0)
               = Inr (rnd64 (8 / 3))"
    using analyze_hrv_beats [OF r_peaks_time_thirds, of sequential_sum] mean_thirds by simp
  have differ3: "map_sum id (MeanRR \<circ> fst) (analyze_hrv sequential_sum df_thirds 0)
                 \<noteq> Inr (Fin (real_mean [2, 3, 3]))"
    unfolding code3 mean3 using rnd64_third by simp
  have wrap: "r_peaks_time df_long_gap 0 = Inr (Int64 [10, 20, 4294967326])
      \<and> as_floats (np_diff (Int64 [10, 20, 4294967326])) = [Fin 10, Fin 4294967306]
      \<and> real_rmssd [10, 4294967306] = 4294967296
      \<and> map_sum id (RMSSD \<circ> fst) (analyze_hrv sequential_sum df_long_gap 0) = Inr (Fin 0)
      \<and> map_sum id (RMSSD \<circ> fst) (analyze_hrv sequential_sum df_long_gap 0)
          \<noteq> Inr (Fin (real_rmssd [10, 4294967306]))"
    using r_peaks_time_long_gap rr natural code by simp
  show ?thesis
    by (intro conjI wrap [THEN conjunct1] wrap [THEN conjunct2, THEN conjunct1]
        wrap [THEN conjunct2, THEN conjunct2, THEN conjunct1]
        wrap [THEN conjunct2, THEN conjunct2, THEN conjunct2, THEN conjunct1]
        wrap [THEN conjunct2, THEN conjunct2, THEN conjunct2, THEN conjunct2]
        r_peaks_time_thirds rr3 mean3 code3 differ3)
qed

text \<open>
  C4, as amended. Whenever the analysis finds \<open>k \<ge> 2\<close> beat times, the interval table
  has exactly \<open>k - 1\<close> rows, and row \<open>i\<close> holds the \<open>i\<close>-th beat time, converted to a
  double, as its timestamp and as its rr the difference
  \<open>beat_times[i+1] - beat_times[i]\<close> taken in the dtype of the time column and converted
  to a double, in the order of the beats: the subtraction of doubles, which rounds, or
  the subtraction of 64-bit integers, which wraps modulo \<open>2^64\<close>. The rr is the natural
  difference whenever that difference is a double (for \<open>int64\<close> times, whenever its
  magnitude is at most \<open>2^53\<close>).
\<close>

theorem interval_table_rows:
  assumes "r_peaks_time df start_index = Inr beats" and "2 \<le> arr_len beats"
  shows "\<exists>m tbl. analyze_hrv add_reduce df start_index = Inr (m, tbl)
          \<and> length tbl = arr_len beats - 1
          \<and> tbl = map (\<lambda>i. \<lparr>timestamp = as_floats beats ! i,
                             rr = consecutive_difference beats i\<rparr>)
                    [0..<arr_len beats - 1]
          \<and> (\<forall>ws i. beats = Int64 ws \<and> i < length ws - 1
                  \<and> \<bar>sint (ws ! Suc i) - sint (ws ! i)\<bar> \<le> 2 ^ 53
               \<longrightarrow> rr (tbl ! i) = Fin (real_of_int (sint (ws ! Suc i) - sint (ws ! i))))
          \<and> (\<forall>fs i x y. beats = Float64 fs \<and> i < length fs - 1
                  \<and> fs ! i = Fin x \<and> fs ! Suc i = Fin y \<and> is_double (y - x)
               \<longrightarrow> rr (tbl ! i) = Fin (y - x))"
proof -
  let ?tbl = "map (\<lambda>i. \<lparr>timestamp = as_floats beats ! i, rr = consecutive_difference beats i\<rparr>)
                [0..<arr_len beats - 1]"
  have "map (\<lambda>i. \<lparr>timestamp = as_floats beats ! i, rr = as_floats (np_diff beats) ! i\<rparr>)
          [0..<arr_len (np_diff beats)] = ?tbl"
    by (simp add: as_floats_np_diff)
  with analyze_hrv_beats [OF assms, of add_reduce]
  have run: "analyze_hrv add_reduce df start_index
             = Inr (hrv_metrics_of add_reduce (np_diff beats), ?tbl)"
    by simp
  have ints: "rr (?tbl ! i) = Fin (real_of_int (sint (ws ! Suc i) - sint (ws ! i)))"
    if "beats = Int64 ws" "i < length ws - 1" "\<bar>sint (ws ! Suc i) - sint (ws ! i)\<bar> \<le> 2 ^ 53"
    for ws i
    using that by (simp add: of_int64_diff_exact)
  have floats: "rr (?tbl ! i) = Fin (y - x)"
    if "beats = Float64 fs" "i < length fs - 1" "fs ! i = Fin x" "fs ! Suc i = Fin y"
      "is_double (y - x)" for fs i x y
    using that by (simp add: fsub_Fin_Fin rnd64_exact)
  show ?thesis
    using run ints floats by auto
qed

theorem interval_table_rows_witness:
  "r_peaks_time df_uneven 0 = Inr (Float64 [Fin 1, Fin 3, Fin 6])
   \<and> 2 \<le> arr_len (Float64 [Fin 1, Fin 3, Fin 6])
   \<and> (\<exists>m. analyze_hrv sequential_sum df_uneven 0
         = Inr (m, [\<lparr>timestamp = Fin 1, rr = Fin 2\<rparr>, \<lparr>timestamp = Fin 3, rr = Fin 3\<rparr>]))"
  using interval_table_rows [OF r_peaks_time_uneven, of sequential_sum] r_peaks_time_uneven
  by (auto simp: float_evals upt_rec)

theorem interval_table_rows_counterexample:
  "r_peaks_time df_far_apart 0
     = Inr (Int64 [- 4611686018427387904, 4611686018427387904])
   \<and> sint (4611686018427387904 :: 64 word) - sint (- 4611686018427387904 :: 64 word)
       = 9223372036854775808
   \<and> map_sum id (map rr \<circ> snd) (analyze_hrv sequential_sum df_far_apart 0)
       = Inr [Fin (- 9223372036854775808)]
   \<and> map_sum id (map rr \<circ> snd) (analyze_hrv sequential_sum df_far_apart 0)
       \<noteq> Inr [Fin (real_of_int (sint (4611686018427387904 :: 64 word)
                                - sint (- 4611686018427387904 :: 64 word)))]"
proof -
  have two: "2 \<le> arr_len (Int64 [- 4611686018427387904, 4611686018427387904])"
    by simp
  note run = analyze_hrv_beats [OF r_peaks_time_far_apart two, of sequential_sum,
      unfolded table_far_apart]
  show ?thesis
    using r_peaks_time_far_apart by (simp add: run)
qed

text \<open>
  C6, as amended. The interval table records \<open>{timestamp: beat_times[k], rr: RR[k]}\<close>
  for each index \<open>k\<close> in the half-open range \<open>[0, len(RR))\<close>: it has \<open>len(RR)\<close> entries,
  one per RR interval. (A range \<open>[0, len(RR)-1)\<close> would drop the last interval; the
  recording with beats at 1, 3 and 6 seconds has two intervals and two rows.)
\<close>

theorem interval_table_per_interval:
  assumes "r_peaks_time df start_index = Inr beats" and "2 \<le> arr_len beats"
  shows "\<exists>m tbl. analyze_hrv add_reduce df start_index = Inr (m, tbl)
          \<and> length tbl = arr_len (np_diff beats)
          \<and> tbl = map (\<lambda>k. \<lparr>timestamp = as_floats beats ! k,
                             rr = as_floats (np_diff beats) ! k\<rparr>)
                    [0..<arr_len (np_diff beats)]"
  using analyze_hrv_beats [OF assms, of add_reduce] by simp

theorem interval_table_per_interval_witness:
  "r_peaks_time df_two 0 = Inr (Int64 [1, 3]) \<and> 2 \<le> arr_len (Int64 [1, 3])
   \<and> as_floats (np_diff (Int64 [1, 3])) = [Fin 2]
   \<and> (\<exists>m. analyze_hrv sequential_sum df_two 0 = Inr (m, [\<lparr>timestamp = Fin 1, rr = Fin 2\<rparr>]))"
  using interval_table_per_interval [OF r_peaks_time_two, of sequential_sum] r_peaks_time_two
  by (simp add: float_evals)

theorem interval_table_per_interval_counterexample:
  "r_peaks_time df_uneven 0 = Inr (Float64 [Fin 1, Fin 3, Fin 6])
   \<and> as_floats (np_diff (Float64 [Fin 1, Fin 3, Fin 6])) = [Fin 2, Fin 3]
   \<and> map_sum id snd (analyze_hrv sequential_sum df_uneven 0)
       = Inr [\<lparr>timestamp = Fin 1, rr = Fin 2\<rparr>, \<lparr>timestamp = Fin 3, rr = Fin 3\<rparr>]
   \<and> map_sum id snd (analyze_hrv sequential_sum df_uneven 0)
       \<noteq> Inr (map (\<lambda>k. \<lparr>timestamp = as_floats (Float64 [Fin 1, Fin 3, Fin 6]) ! k,
                          rr = as_floats (np_diff (Float64 [Fin 1, Fin 3, Fin 6])) ! k\<rparr>)
                [0..<arr_len (np_diff (Float64 [Fin 1, Fin 3, Fin 6])) - 1])"
  using analyze_hrv_beats [OF r_peaks_time_uneven, of sequential_sum] r_peaks_time_uneven
  by (simp add: float_evals upt_rec)

text \<open>
  C8. Whenever the analysis finds exactly two beat times, \<open>analyze_hrv\<close> does not raise:
  it returns a metrics record whose MeanRR is the single RR value and whose SDNN and RMSSD
  are NaN (the divisor \<open>N - 1\<close> is zero, the sequence of second differences is empty),
  together with the one-row interval table. The single RR value is the difference of the
  two beat times as the dtype of the time column takes it.
\<close>

theorem analyze_hrv_two_beats:
  assumes "r_peaks_time df start_index = Inr beats" and "arr_len beats = 2"
    and "sound_reduce add_reduce"
  shows "\<exists>single. as_floats (np_diff beats) = [single]
          \<and> single = consecutive_difference beats 0
          \<and> analyze_hrv add_reduce df start_index
              = Inr (\<lparr>MeanRR = single, SDNN = NaN, RMSSD = NaN\<rparr>,
                     [\<lparr>timestamp = as_floats beats ! 0, rr = single\<rparr>])"
  using analyze_hrv_pair [OF assms] single_mean(2) [OF assms(2,3)] by simp

theorem analyze_hrv_two_beats_witness:
  "r_peaks_time df_two 0 = Inr (Int64 [1, 3]) \<and> arr_len (Int64 [1, 3]) = 2
   \<and> sound_reduce sequential_sum
   \<and> analyze_hrv sequential_sum df_two 0
       = Inr (\<lparr>MeanRR = Fin 2, SDNN = NaN, RMSSD = NaN\<rparr>, [\<lparr>timestamp = Fin 1, rr = Fin 2\<rparr>])
   \<and> r_peaks_time df_far_apart 0
       = Inr (Int64 [- 4611686018427387904, 4611686018427387904])
   \<and> analyze_hrv sequential_sum df_far_apart 0
       = Inr (\<lparr>MeanRR = Fin (- 9223372036854775808), SDNN = NaN, RMSSD = NaN\<rparr>,
              [\<lparr>timestamp = Fin (- 4611686018427387904),
                rr = Fin (- 9223372036854775808)\<rparr>])"
  using analyze_hrv_two_beats [OF r_peaks_time_two _ sound_sequential_sum]
    analyze_hrv_two_beats [OF r_peaks_time_far_apart _ sound_sequential_sum]
    r_peaks_time_two r_peaks_time_far_apart sound_sequential_sum
  by (simp add: float_evals)

text \<open>
  C3, as amended. Whenever, after truncation by the offset, peak detection yields fewer
  than two beat times, \<open>analyze_hrv\<close> raises a \<open>ValueError\<close> whose message is
  \<open>Not enough R-peaks to compute HRV.\<close> (the literal of the source ends with a full
  stop), and neither a metrics record nor an interval table is returned.
\<close>

theorem analyze_hrv_not_enough:
  assumes "r_peaks_time df start_index = Inr beats" and "arr_len beats < 2"
  shows "analyze_hrv add_reduce df start_index
           = Inl (ValueError ''Not enough R-peaks to compute HRV.'')
         \<and> (\<forall>r. analyze_hrv add_reduce df start_index \<noteq> Inr r)"
  using analyze_hrv_few_beats [OF assms, of add_reduce] by simp

theorem analyze_hrv_not_enough_witness:
  "r_peaks_time df_one 0 = Inr (Float64 [Fin 1]) \<and> arr_len (Float64 [Fin 1]) < 2
   \<and> analyze_hrv sequential_sum df_one 0
       = Inl (ValueError ''Not enough R-peaks to compute HRV.'')"
  using analyze_hrv_not_enough [OF r_peaks_time_one, of sequential_sum] r_peaks_time_one
  by simp

theorem analyze_hrv_not_enough_counterexample:
  "r_peaks_time df_one 0 = Inr (Float64 [Fin 1]) \<and> arr_len (Float64 [Fin 1]) < 2
   \<and> analyze_hrv sequential_sum df_one 0
       \<noteq> Inl (ValueError ''Not enough R-peaks to compute HRV'')"
  using analyze_hrv_few_beats [OF r_peaks_time_one, of sequential_sum] r_peaks_time_one
  by simp

section \<open>Start offsets\<close>

lemma map_nth_butlast: "map (\<lambda>i. xs ! i) [0..<length xs - 1] = butlast xs"
  by (rule nth_equalityI) (simp_all add: nth_butlast)

lemma arr_take_Nil: "\<exists>b. arr_take a [] = Inr b \<and> arr_len b = 0"
  by (cases a) simp_all

lemma detect_peaks_arr_empty: "arr_len a = 0 \<Longrightarrow> detect_peaks_arr a = Inr []"
  by (cases a) (simp_all add: detect_peaks_filter)

text \<open>
  C5. Calling \<open>analyze_hrv\<close> with a start offset \<open>n\<close> equals calling it with offset 0 on
  the input with its first \<open>n\<close> samples dropped: the peak indices and the whole result
  (metrics and interval table, or the failure) are identical, and two inputs that agree
  from the offset on give the same peak indices and the same result. This holds for every
  input, in particular for those yielding at least two beat times.
\<close>

theorem offset_as_presliced:
  "peak_indices df (int n) = peak_indices (presliced n df) 0
   \<and> analyze_hrv add_reduce df (int n) = analyze_hrv add_reduce (presliced n df) 0
   \<and> (presliced n df' = presliced n df \<longrightarrow>
        peak_indices df' (int n) = peak_indices df (int n)
        \<and> analyze_hrv add_reduce df' (int n) = analyze_hrv add_reduce df (int n))"
proof -
  have pre: "peak_indices d (int n) = peak_indices (presliced n d) 0
             \<and> analyze_hrv add_reduce d (int n) = analyze_hrv add_reduce (presliced n d) 0" for d
    using analyze_hrv_slices [of "int n" d 0 "presliced n d"]
    by (simp add: presliced_def arr_slice_from_nat arr_slice_from_0)
  show ?thesis
    using pre [of df] pre [of df'] by simp
qed

theorem offset_as_presliced_witness:
  "r_peaks_time df_steady 2 = Inr (Float64 [Fin 1, Fin 2, Fin 3, Fin 4])
   \<and> analyze_hrv sequential_sum df_steady 2
       = analyze_hrv sequential_sum (presliced 2 df_steady) 0
   \<and> df_steady_alt \<noteq> df_steady
   \<and> presliced 2 df_steady_alt = presliced 2 df_steady
   \<and> peak_indices df_steady_alt 2 = peak_indices df_steady 2
   \<and> analyze_hrv sequential_sum df_steady_alt 2 = analyze_hrv sequential_sum df_steady 2"
proof -
  have same: "presliced 2 df_steady_alt = presliced 2 df_steady"
    by (simp add: presliced_def df_steady_def df_steady_alt_def)
  have differ: "df_steady_alt \<noteq> df_steady"
    by (simp add: df_steady_def df_steady_alt_def)
  show ?thesis
    using offset_as_presliced [of df_steady 2 sequential_sum df_steady_alt] same differ
      r_peaks_time_steady_2
    by simp
qed

text \<open>
  C9, as amended. For every start offset at or beyond the length of the sample sequence,
  \<open>analyze_hrv\<close> raises no index error: both truncated sequences are empty, peak detection
  returns no peaks, and the call raises the \<open>ValueError\<close> of the insufficient-data case,
  whose message is \<open>Not enough R-peaks to compute HRV.\<close> (with the full stop of the
  source's literal).
\<close>

theorem analyze_hrv_offset_beyond:
  assumes "int (arr_len (time_s df)) \<le> start_index"
    and "int (arr_len (voltage_mv df)) \<le> start_index"
  shows "arr_len (arr_slice_from start_index (time_s df)) = 0
         \<and> arr_len (arr_slice_from start_index (voltage_mv df)) = 0
         \<and> peak_indices df start_index = Inr []
         \<and> analyze_hrv add_reduce df start_index
             = Inl (ValueError ''Not enough R-peaks to compute HRV.'')"
proof -
  have ts: "arr_len (arr_slice_from start_index (time_s df)) = 0"
    and vs: "arr_len (arr_slice_from start_index (voltage_mv df)) = 0"
    using assms by (simp_all add: arr_slice_from_beyond)
  have ps: "peak_indices df start_index = Inr []"
    by (simp add: peak_indices_def detect_peaks_arr_empty [OF vs])
  obtain b where "arr_take (arr_slice_from start_index (time_s df)) [] = Inr b"
    and "arr_len b = 0"
    using arr_take_Nil by blast
  then have "r_peaks_time df start_index = Inr b" and "arr_len b < 2"
    by (simp_all add: r_peaks_time_def ps)
  then have "analyze_hrv add_reduce df start_index
             = Inl (ValueError ''Not enough R-peaks to compute HRV.'')"
    by (rule analyze_hrv_few_beats)
  with ts vs ps show ?thesis by simp
qed

theorem analyze_hrv_offset_beyond_witness:
  "int (arr_len (time_s df_one)) \<le> 3 \<and> int (arr_len (voltage_mv df_one)) \<le> 3
   \<and> peak_indices df_one 3 = Inr []
   \<and> analyze_hrv sequential_sum df_one 3
       = Inl (ValueError ''Not enough R-peaks to compute HRV.'')
   \<and> analyze_hrv sequential_sum df_one 8
       = Inl (ValueError ''Not enough R-peaks to compute HRV.'')"
  using analyze_hrv_offset_beyond [of df_one 3 sequential_sum]
    analyze_hrv_offset_beyond [of df_one 8 sequential_sum]
  by (simp add: df_one_def)

theorem analyze_hrv_offset_beyond_counterexample:
  "int (arr_len (time_s df_one)) \<le> 3 \<and> int (arr_len (voltage_mv df_one)) \<le> 3
   \<and> analyze_hrv sequential_sum df_one 3
       \<noteq> Inl (ValueError ''Not enough R-peaks to compute HRV'')"
  by (simp add: df_one_def run_defs)

text \<open>
  C10. For every negative start offset \<open>s\<close> with \<open>|s|\<close> not exceeding the length of the
  sample sequence, \<open>analyze_hrv\<close> does not reject the offset: it analyses exactly the
  last \<open>|s|\<close> samples, as if the offset were \<open>length - |s|\<close>. The peaks are those of the
  last \<open>|s|\<close> voltages, the beat times are the last \<open>|s|\<close> times at those peaks, and the
  call returns a result whenever there are at least two of them; it raises only the
  error of the insufficient-data case, when there are fewer.
\<close>

theorem analyze_hrv_negative_offset:
  assumes "start_index < 0" and "- start_index \<le> int (arr_len (time_s df))"
    and "arr_len (voltage_mv df) = arr_len (time_s df)"
  shows "arr_len (time_s (last_samples (nat (- start_index)) df)) = nat (- start_index)
         \<and> arr_len (voltage_mv (last_samples (nat (- start_index)) df)) = nat (- start_index)
         \<and> (\<exists>ps beats.
               detect_peaks_arr (voltage_mv (last_samples (nat (- start_index)) df)) = Inr ps
               \<and> peak_indices df start_index = Inr ps
               \<and> r_peaks_time df start_index = Inr beats
               \<and> as_floats beats
                   = map (\<lambda>i. as_floats (time_s (last_samples (nat (- start_index)) df)) ! nat i)
                       ps
               \<and> (if length ps < 2
                  then analyze_hrv add_reduce df start_index
                         = Inl (ValueError ''Not enough R-peaks to compute HRV.'')
                  else \<exists>m tbl. analyze_hrv add_reduce df start_index = Inr (m, tbl)
                         \<and> map timestamp tbl = butlast (as_floats beats)))
         \<and> analyze_hrv add_reduce df start_index
             = analyze_hrv add_reduce (last_samples (nat (- start_index)) df) 0
         \<and> analyze_hrv add_reduce df start_index
             = analyze_hrv add_reduce df (int (arr_len (time_s df)) + start_index)"
proof -
  let ?n = "arr_len (time_s df)"
  let ?k = "?n - nat (- start_index)"
  let ?tail = "last_samples (nat (- start_index)) df"
  have neg: "- start_index \<le> int (arr_len (voltage_mv df))"
    using assms(2,3) by simp
  have tail: "?tail = presliced ?k df"
    by (simp add: last_samples_def)
  have ts: "arr_slice_from start_index (time_s df) = time_s ?tail"
    using assms(1,2) by (simp add: tail presliced_def arr_slice_from_negative_drop)
  have vs: "arr_slice_from start_index (voltage_mv df) = voltage_mv ?tail"
    using assms(1) neg by (simp add: tail presliced_def arr_slice_from_negative_drop assms(3))
  have len_t: "arr_len (time_s ?tail) = nat (- start_index)"
    using assms(1,2) by (simp add: tail presliced_def)
  have len_v: "arr_len (voltage_mv ?tail) = nat (- start_index)"
    using assms(1) neg by (simp add: tail presliced_def assms(3))
  have last: "analyze_hrv add_reduce df start_index = analyze_hrv add_reduce ?tail 0"
    by (rule analyze_hrv_slices(3)) (simp_all add: ts vs arr_slice_from_0)
  have shifted: "analyze_hrv add_reduce df (int ?n + start_index)
                 = analyze_hrv add_reduce ?tail 0"
  proof (rule analyze_hrv_slices(3))
    show "arr_slice_from (int ?n + start_index) (time_s df) = arr_slice_from 0 (time_s ?tail)"
      using assms(1,2)
      by (simp add: tail presliced_def arr_slice_from_0 arr_slice_from_shifted_drop)
    show "arr_slice_from (int ?n + start_index) (voltage_mv df)
          = arr_slice_from 0 (voltage_mv ?tail)"
      using assms(1) neg arr_slice_from_shifted_drop [of start_index "voltage_mv df"]
      by (simp add: tail presliced_def arr_slice_from_0 assms(3))
  qed
  from r_peaks_time_total [of df start_index] assms(3)
  obtain ps beats where ps: "peak_indices df start_index = Inr ps"
    and beats: "r_peaks_time df start_index = Inr beats"
    and count: "arr_len beats = length ps"
    and times: "as_floats beats = map (\<lambda>i. as_floats (time_s ?tail) ! nat i) ps"
    unfolding ts by auto
  have detect: "detect_peaks_arr (voltage_mv ?tail) = Inr ps"
    using ps by (simp add: peak_indices_def vs)
  have result: "if length ps < 2
      then analyze_hrv add_reduce df start_index
             = Inl (ValueError ''Not enough R-peaks to compute HRV.'')
      else \<exists>m tbl. analyze_hrv add_reduce df start_index = Inr (m, tbl)
             \<and> map timestamp tbl = butlast (as_floats beats)"
  proof (cases "length ps < 2")
    case True
    with analyze_hrv_few_beats [OF beats, of add_reduce] count show ?thesis
      by simp
  next
    case False
    then have "2 \<le> arr_len beats" using count by simp
    from analyze_hrv_beats [OF beats this, of add_reduce] False
    show ?thesis
      using map_nth_butlast [of "as_floats beats"] by (simp add: comp_def)
  qed
  have same: "analyze_hrv add_reduce df start_index
              = analyze_hrv add_reduce df (int ?n + start_index)"
    by (simp only: last shifted)
  show ?thesis
    by (intro conjI exI [of _ ps] exI [of _ beats]
        len_t len_v detect ps beats times result last same)
qed

theorem analyze_hrv_negative_offset_witness:
  "(- 5 :: int) < 0 \<and> - (- 5) \<le> int (arr_len (time_s df_steady))
   \<and> arr_len (voltage_mv df_steady) = arr_len (time_s df_steady)
   \<and> last_samples 5 df_steady
       = \<lparr>time_s = Float64 [Fin (5 / 2), Fin 3, Fin (7 / 2), Fin 4, Fin (9 / 2)],
          voltage_mv = Float64 [Fin 0, Fin 1, Fin 0, Fin 1, Fin 0]\<rparr>
   \<and> peak_indices df_steady (- 5) = Inr [1, 3]
   \<and> r_peaks_time df_steady (- 5) = Inr (Float64 [Fin 3, Fin 4])
   \<and> analyze_hrv sequential_sum df_steady (- 5)
       = Inr (\<lparr>MeanRR = Fin 1, SDNN = NaN, RMSSD = NaN\<rparr>, [\<lparr>timestamp = Fin 3, rr = Fin 1\<rparr>])
   \<and> analyze_hrv sequential_sum df_steady (- 5) = analyze_hrv sequential_sum df_steady 6
   \<and> analyze_hrv sequential_sum df_steady (- 5)
       = analyze_hrv sequential_sum (last_samples 5 df_steady) 0"
proof -
  have len: "arr_len (time_s df_steady) = 11" "arr_len (voltage_mv df_steady) = 11"
    by (simp_all add: df_steady_def)
  have pre: "(- 5 :: int) < 0" "- (- 5) \<le> int (arr_len (time_s df_steady))"
    "arr_len (voltage_mv df_steady) = arr_len (time_s df_steady)"
    by (simp_all add: len)
  have at: "int (arr_len (time_s df_steady)) + - 5 = 6" "nat (- (- 5)) = 5"
    by (simp_all add: len)
  have tail: "last_samples 5 df_steady
       = \<lparr>time_s = Float64 [Fin (5 / 2), Fin 3, Fin (7 / 2), Fin 4, Fin (9 / 2)],
          voltage_mv = Float64 [Fin 0, Fin 1, Fin 0, Fin 1, Fin 0]\<rparr>"
    by (simp add: last_samples_def presliced_def df_steady_def)
  have peaks: "peak_indices df_steady (- 5) = Inr [1, 3]"
    by (simp add: df_steady_def run_defs)
  have outcome: "analyze_hrv sequential_sum df_steady (- 5)
       = Inr (\<lparr>MeanRR = Fin 1, SDNN = NaN, RMSSD = NaN\<rparr>, [\<lparr>timestamp = Fin 3, rr = Fin 1\<rparr>])"
    using analyze_hrv_pair [OF r_peaks_time_steady_tail _ sound_sequential_sum]
    by (simp add: float_evals)
  have "analyze_hrv sequential_sum df_steady (- 5)
          = analyze_hrv sequential_sum (last_samples 5 df_steady) 0
        \<and> analyze_hrv sequential_sum df_steady (- 5) = analyze_hrv sequential_sum df_steady 6"
    using analyze_hrv_negative_offset [OF pre, of sequential_sum] unfolding at by blast
  with pre tail peaks outcome r_peaks_time_steady_tail show ?thesis
    by blast
qed


end
